theory Spec2Isabelle
  imports Complex_Main
begin

section \<open>JSON documents as Python sees them\<close>

text \<open>
  The value that \<^verbatim>\<open>response.json()\<close> hands to the parser: \<^verbatim>\<open>None\<close>, a bool, an int, a
  float, a str, a list or a dict. A dict is an association list in insertion order; a
  dict built by the JSON decoder has pairwise distinct keys. Floats are
  read as reals: the only thing the code asks of a float is whether it is zero (NaN and
  the infinities, which are not zero, are not represented).
\<close>

datatype json =
    JNull
  | JBool bool
  | JInt int
  | JFloat real
  | JStr string
  | JArray "json list"
  | JObject "(string \<times> json) list"

datatype error =
    KeyError string
  | TypeError string
  | AttributeError string
  | ValueError string
  | IndexError string
  | NotImplementedError
  | HTTPError nat
  | ConnectionError
  | JSONDecodeError

text \<open>Python's truth value of a JSON value, as \<^verbatim>\<open>not nested_data\<close> tests it.\<close>

fun truthy :: "json \<Rightarrow> bool" where
  "truthy JNull = False"
| "truthy (JBool b) = b"
| "truthy (JInt i) = (i \<noteq> 0)"
| "truthy (JFloat r) = (r \<noteq> 0)"
| "truthy (JStr s) = (s \<noteq> [])"
| "truthy (JArray xs) = (xs \<noteq> [])"
| "truthy (JObject kvs) = (kvs \<noteq> [])"

fun type_name :: "json \<Rightarrow> string" where
  "type_name JNull = ''NoneType''"
| "type_name (JBool b) = ''bool''"
| "type_name (JInt i) = ''int''"
| "type_name (JFloat r) = ''float''"
| "type_name (JStr s) = ''str''"
| "type_name (JArray xs) = ''list''"
| "type_name (JObject kvs) = ''dict''"

text \<open>\<^verbatim>\<open>d.get(key, default)\<close> on a dict.\<close>

definition dict_get :: "(string \<times> json) list \<Rightarrow> string \<Rightarrow> json \<Rightarrow> json" where
  "dict_get d key dflt = (case map_of d key of None \<Rightarrow> dflt | Some v \<Rightarrow> v)"

text \<open>
  \<^verbatim>\<open>nested_data.get(key, [])\<close> on any value: only a dict has a \<^verbatim>\<open>get\<close> attribute, every
  other value raises AttributeError.
\<close>

fun py_get :: "json \<Rightarrow> string \<Rightarrow> json \<Rightarrow> error + json" where
  "py_get (JObject d) key dflt = Inr (dict_get d key dflt)"
| "py_get v key dflt =
     Inl (AttributeError ([CHR 0x27] @ type_name v @ [CHR 0x27] @ '' object has no attribute ''
            @ [CHR 0x27] @ ''get'' @ [CHR 0x27]))"

section \<open>The response parser (json\_parser.py)\<close>

text \<open>The message of the KeyError: \<^verbatim>\<open>f"Key '{key}' not found in the provided data."\<close>\<close>

definition key_not_found :: "string \<Rightarrow> string" where
  "key_not_found key = ''Key '' @ [CHR 0x27] @ key @ [CHR 0x27] @ '' not found in the provided data.''"

text \<open>
  The loop \<^verbatim>\<open>for key in record_path\<close> of \<^verbatim>\<open>parse_json_response\<close>: look the key up with the
  default \<^verbatim>\<open>[]\<close>, raise KeyError when what comes back is falsy, go on with it otherwise.
\<close>

fun walk :: "json \<Rightarrow> string list \<Rightarrow> error + json" where
  "walk nested_data [] = Inr nested_data"
| "walk nested_data (key # keys) =
     (case py_get nested_data key (JArray []) of
        Inl e \<Rightarrow> Inl e
      | Inr v \<Rightarrow> if \<not> truthy v then Inl (KeyError (key_not_found key)) else walk v keys)"

text \<open>
  \<^verbatim>\<open>parse_json_response(data, record_path=None)\<close>. The two pandas entry points it calls,
  \<^verbatim>\<open>pd.json_normalize\<close> and \<^verbatim>\<open>pd.DataFrame\<close>, are library code outside the repository and
  are taken as parameters here; \<open>'f\<close> is the type of data frames. An absent record path
  is \<open>None\<close>; \<^verbatim>\<open>if record_path:\<close> is false for \<open>None\<close> and for the empty list.
\<close>

definition parse_json_response ::
  "(json \<Rightarrow> error + 'f) \<Rightarrow> (json \<Rightarrow> error + 'f) \<Rightarrow> json \<Rightarrow> string list option \<Rightarrow> error + 'f" where
  "parse_json_response pd_json_normalize pd_DataFrame data record_path =
     (case record_path of
        Some (key # keys) \<Rightarrow>
          (case walk data (key # keys) of
             Inl e \<Rightarrow> Inl e
           | Inr nested_data \<Rightarrow>
               (case nested_data of
                  JArray xs \<Rightarrow> pd_json_normalize (JArray xs)
                | _ \<Rightarrow> Inl (TypeError ''Nested data is not a list.'')))
      | _ \<Rightarrow> pd_DataFrame data)"

text \<open>An error message names a key when the key occurs in it as a contiguous piece.\<close>

fun is_prefix :: "string \<Rightarrow> string \<Rightarrow> bool" where
  "is_prefix [] ys = True"
| "is_prefix (x # xs) [] = False"
| "is_prefix (x # xs) (y # ys) = (x = y \<and> is_prefix xs ys)"

fun names :: "string \<Rightarrow> string \<Rightarrow> bool" where
  "names [] key = (key = [])"
| "names (c # msg) key = (is_prefix key (c # msg) \<or> names msg key)"

section \<open>Characters and decimal digits\<close>

text \<open>
  A Python string is read as a list of characters with code points below 256; among
  those the decimal digits, for \<^verbatim>\<open>int\<close> as for a regular expression's \<^verbatim>\<open>\d\<close>, are
  \<^verbatim>\<open>0\<close> to \<^verbatim>\<open>9\<close>.
\<close>

definition is_digit :: "char \<Rightarrow> bool" where
  "is_digit c = (48 \<le> (of_char c :: nat) \<and> (of_char c :: nat) \<le> 57)"

definition digit_value :: "char \<Rightarrow> nat" where
  "digit_value c = of_char c - 48"

definition int_of_digits :: "string \<Rightarrow> nat" where
  "int_of_digits s = foldl (\<lambda>n c. 10 * n + digit_value c) 0 s"

section \<open>Endpoint descriptors (endpoint\_paths.py)\<close>

record APIEndpoint =
  endpoint_url :: string
  json_payload_record_path :: "string list"

text \<open>
  \<^verbatim>\<open>str.format(*args, **kwargs)\<close> is the Python built-in, outside the repository. What
  decides the result of \<^verbatim>\<open>create_endpoint_url\<close> is which argument each replacement field
  selects, and that is modelled here after the interpreter's scanner: \<^verbatim>\<open>{{\<close> and \<^verbatim>\<open>}}\<close> are
  literal braces, a field is \<^verbatim>\<open>{name!conversion:spec}\<close>, the part of the name before the
  first \<^verbatim>\<open>.\<close> or \<^verbatim>\<open>[\<close> selects the argument: empty, the next positional argument;
  digits, the positional argument of that index; anything else, the keyword argument of
  that name (KeyError when there is none). How the selected argument is turned into text
  (attribute and index access, conversion, format specification) is the parameter
  \<open>render\<close>. Fields are handled from left to right and the first error ends the call.
\<close>

datatype an_state = ANS_INIT | ANS_AUTO | ANS_MANUAL

datatype scan =
    Literal
  | SawOpen
  | SawClose
  | FieldName string bool
  | ConvChar string
  | AfterConv string char
  | Spec string "char option" string nat

definition select_arg ::
  "'v list \<Rightarrow> (string \<times> 'v) list \<Rightarrow> an_state \<times> nat \<Rightarrow> string \<Rightarrow> error + ('v \<times> an_state \<times> nat)" where
  "select_arg args kwargs an first =
     (if first = [] then
        (if fst an = ANS_MANUAL then
           Inl (ValueError ''cannot switch from manual field specification to automatic field numbering'')
         else if snd an < length args then Inr (args ! snd an, ANS_AUTO, snd an + 1)
         else Inl (IndexError ''Replacement index out of range for positional args tuple''))
      else if list_all is_digit first then
        (if fst an = ANS_AUTO then
           Inl (ValueError ''cannot switch from automatic field numbering to manual field specification'')
         else if int_of_digits first < length args then Inr (args ! int_of_digits first, ANS_MANUAL, snd an)
         else Inl (IndexError ''Replacement index out of range for positional args tuple''))
      else
        (case map_of kwargs first of
           None \<Rightarrow> Inl (KeyError first)
         | Some v \<Rightarrow> Inr (v, an)))"

definition first_part :: "string \<Rightarrow> string" where
  "first_part field_name = takeWhile (\<lambda>c. c \<noteq> CHR ''.'' \<and> c \<noteq> CHR ''['') field_name"

definition rest_part :: "string \<Rightarrow> string" where
  "rest_part field_name = dropWhile (\<lambda>c. c \<noteq> CHR ''.'' \<and> c \<noteq> CHR ''['') field_name"

definition output_markup ::
  "('v \<Rightarrow> string \<Rightarrow> char option \<Rightarrow> string \<Rightarrow> error + string) \<Rightarrow> 'v list \<Rightarrow> (string \<times> 'v) list
     \<Rightarrow> an_state \<times> nat \<Rightarrow> string \<Rightarrow> char option \<Rightarrow> string \<Rightarrow> error + (string \<times> an_state \<times> nat)" where
  "output_markup render args kwargs an field_name conversion format_spec =
     (case select_arg args kwargs an (first_part field_name) of
        Inl e \<Rightarrow> Inl e
      | Inr (v, an') \<Rightarrow>
          (case render v (rest_part field_name) conversion format_spec of
             Inl e \<Rightarrow> Inl e
           | Inr text \<Rightarrow> Inr (text, an')))"

definition finish_field ::
  "('v \<Rightarrow> string \<Rightarrow> char option \<Rightarrow> string \<Rightarrow> error + string) \<Rightarrow> 'v list \<Rightarrow> (string \<times> 'v) list
     \<Rightarrow> string \<Rightarrow> an_state \<times> nat \<Rightarrow> string \<Rightarrow> char option \<Rightarrow> string
     \<Rightarrow> error + (scan \<times> string \<times> an_state \<times> nat)" where
  "finish_field render args kwargs out an field_name conversion format_spec =
     (case output_markup render args kwargs an field_name conversion format_spec of
        Inl e \<Rightarrow> Inl e
      | Inr (text, an') \<Rightarrow> Inr (Literal, out @ text, an'))"

definition name_step ::
  "('v \<Rightarrow> string \<Rightarrow> char option \<Rightarrow> string \<Rightarrow> error + string) \<Rightarrow> 'v list \<Rightarrow> (string \<times> 'v) list
     \<Rightarrow> string \<Rightarrow> bool \<Rightarrow> string \<Rightarrow> an_state \<times> nat \<Rightarrow> char
     \<Rightarrow> error + (scan \<times> string \<times> an_state \<times> nat)" where
  "name_step render args kwargs n in_bracket out an c =
     (if in_bracket then Inr (FieldName (n @ [c]) (c \<noteq> CHR '']''), out, an)
      else if c = CHR ''{'' then
        Inl (ValueError (''unexpected '' @ [CHR 0x27] @ ''{'' @ [CHR 0x27] @ '' in field name''))
      else if c = CHR ''['' then Inr (FieldName (n @ [c]) True, out, an)
      else if c = CHR ''}'' then finish_field render args kwargs out an n None []
      else if c = CHR '':'' then Inr (Spec n None [] 1, out, an)
      else if c = CHR ''!'' then Inr (ConvChar n, out, an)
      else Inr (FieldName (n @ [c]) False, out, an))"

fun markup_step ::
  "('v \<Rightarrow> string \<Rightarrow> char option \<Rightarrow> string \<Rightarrow> error + string) \<Rightarrow> 'v list \<Rightarrow> (string \<times> 'v) list
     \<Rightarrow> scan \<Rightarrow> string \<Rightarrow> an_state \<times> nat \<Rightarrow> char
     \<Rightarrow> error + (scan \<times> string \<times> an_state \<times> nat)" where
  "markup_step render args kwargs Literal out an c =
     (if c = CHR ''{'' then Inr (SawOpen, out, an)
      else if c = CHR ''}'' then Inr (SawClose, out, an)
      else Inr (Literal, out @ [c], an))"
| "markup_step render args kwargs SawClose out an c =
     (if c = CHR ''}'' then Inr (Literal, out @ [c], an)
      else Inl (ValueError (''Single '' @ [CHR 0x27] @ ''}'' @ [CHR 0x27] @ '' encountered in format string'')))"
| "markup_step render args kwargs SawOpen out an c =
     (if c = CHR ''{'' then Inr (Literal, out @ [c], an)
      else name_step render args kwargs [] False out an c)"
| "markup_step render args kwargs (FieldName n in_bracket) out an c =
     name_step render args kwargs n in_bracket out an c"
| "markup_step render args kwargs (ConvChar n) out an c = Inr (AfterConv n c, out, an)"
| "markup_step render args kwargs (AfterConv n conv) out an c =
     (if c = CHR ''}'' then finish_field render args kwargs out an n (Some conv) []
      else if c = CHR '':'' then Inr (Spec n (Some conv) [] 1, out, an)
      else Inl (ValueError (''expected '' @ [CHR 0x27] @ '':'' @ [CHR 0x27] @ '' after conversion specifier'')))"
| "markup_step render args kwargs (Spec n conv spec k) out an c =
     (if c = CHR ''{'' then Inr (Spec n conv (spec @ [c]) (k + 1), out, an)
      else if c = CHR ''}'' then
        (if k = 1 then finish_field render args kwargs out an n conv spec
         else Inr (Spec n conv (spec @ [c]) (k - 1), out, an))
      else Inr (Spec n conv (spec @ [c]) k, out, an))"

fun markup_end :: "scan \<Rightarrow> string \<Rightarrow> error + string" where
  "markup_end Literal out = Inr out"
| "markup_end SawOpen out =
     Inl (ValueError (''Single '' @ [CHR 0x27] @ ''{'' @ [CHR 0x27] @ '' encountered in format string''))"
| "markup_end SawClose out =
     Inl (ValueError (''Single '' @ [CHR 0x27] @ ''}'' @ [CHR 0x27] @ '' encountered in format string''))"
| "markup_end (FieldName n b) out =
     Inl (ValueError (''expected '' @ [CHR 0x27] @ ''}'' @ [CHR 0x27] @ '' before end of string''))"
| "markup_end (ConvChar n) out = Inl (ValueError ''end of string while looking for conversion specifier'')"
| "markup_end (AfterConv n c) out =
     Inl (ValueError (''unmatched '' @ [CHR 0x27] @ ''{'' @ [CHR 0x27] @ '' in format spec''))"
| "markup_end (Spec n c s k) out =
     Inl (ValueError (''unmatched '' @ [CHR 0x27] @ ''{'' @ [CHR 0x27] @ '' in format spec''))"

fun do_markup ::
  "('v \<Rightarrow> string \<Rightarrow> char option \<Rightarrow> string \<Rightarrow> error + string) \<Rightarrow> 'v list \<Rightarrow> (string \<times> 'v) list
     \<Rightarrow> scan \<Rightarrow> string \<Rightarrow> an_state \<times> nat \<Rightarrow> string \<Rightarrow> error + string" where
  "do_markup render args kwargs st out an [] = markup_end st out"
| "do_markup render args kwargs st out an (c # cs) =
     (case markup_step render args kwargs st out an c of
        Inl e \<Rightarrow> Inl e
      | Inr (st', out', an') \<Rightarrow> do_markup render args kwargs st' out' an' cs)"

text \<open>\<^verbatim>\<open>template.format(*args, **kwargs)\<close>\<close>

definition str_format ::
  "('v \<Rightarrow> string \<Rightarrow> char option \<Rightarrow> string \<Rightarrow> error + string) \<Rightarrow> string \<Rightarrow> 'v list \<Rightarrow> (string \<times> 'v) list
     \<Rightarrow> error + string" where
  "str_format render template args kwargs = do_markup render args kwargs Literal [] (ANS_INIT, 0) template"

text \<open>
  \<^verbatim>\<open>def create_endpoint_url(endpoint, parameters=dict): return endpoint.endpoint_url.format(parameters)\<close>.
  The parameters are handed to \<^verbatim>\<open>format\<close> as its one positional argument; there is no
  keyword argument. \<open>None\<close> stands for the default value of \<^verbatim>\<open>parameters\<close>, the class
  \<^verbatim>\<open>dict\<close>.
\<close>

definition create_endpoint_url ::
  "((string \<times> string) list option \<Rightarrow> string \<Rightarrow> char option \<Rightarrow> string \<Rightarrow> error + string)
     \<Rightarrow> APIEndpoint \<Rightarrow> (string \<times> string) list option \<Rightarrow> error + string" where
  "create_endpoint_url render endpoint parameters =
     str_format render (endpoint_url endpoint) [parameters] []"

definition DailyFuelMix :: APIEndpoint where
  "DailyFuelMix = \<lparr>endpoint_url = ''genfuelmix/day/{day}'',
                    json_payload_record_path = [''GenFuelMixes'', ''GenFuelMix'']\<rparr>"

section \<open>The date validator (endpoints.py)\<close>

definition digit_char :: "nat \<Rightarrow> char" where
  "digit_char k = char_of (48 + k)"

text \<open>
  The value of \<^verbatim>\<open>datetime.strptime(date_text, "%Y%m%d")\<close>: a date at midnight. Only the date
  fields play a part.
\<close>

record datetime =
  dt_year :: nat
  dt_month :: nat
  dt_day :: nat

definition is_leap :: "nat \<Rightarrow> bool" where
  "is_leap y = (y mod 4 = 0 \<and> (y mod 100 \<noteq> 0 \<or> y mod 400 = 0))"

definition days_in_month :: "nat \<Rightarrow> nat \<Rightarrow> nat" where
  "days_in_month y m =
     (if m = 2 then (if is_leap y then 29 else 28)
      else if m = 4 \<or> m = 6 \<or> m = 9 \<or> m = 11 then 30 else 31)"

definition valid_date :: "nat \<Rightarrow> nat \<Rightarrow> nat \<Rightarrow> bool" where
  "valid_date y m d = (1 \<le> y \<and> y \<le> 9999 \<and> 1 \<le> m \<and> m \<le> 12 \<and> 1 \<le> d \<and> d \<le> days_in_month y m)"

text \<open>
  \<^verbatim>\<open>datetime.strptime\<close> and \<^verbatim>\<open>datetime.strftime\<close> belong to the Python standard library,
  outside the repository. For the format \<^verbatim>\<open>%Y%m%d\<close> the library compiles the regular expression
  \<^verbatim>\<open>(?P<Y>\d\d\d\d)(?P<m>1[0-2]|0[1-9]|[1-9])(?P<d>3[0-1]|[1-2]\d|0[1-9]|[1-9]| [1-9])\<close>
  and takes the first match at the start of the text, the alternatives tried from left to
  right with backtracking. Each function below lists the ways one group can match a
  prefix of the text, in that order, with the number read and the text left over.
\<close>

fun alts_Y :: "string \<Rightarrow> (nat \<times> string) list" where
  "alts_Y (a # b # c # d # rest) =
     (if is_digit a \<and> is_digit b \<and> is_digit c \<and> is_digit d
      then [(int_of_digits [a, b, c, d], rest)] else [])"
| "alts_Y s = []"

definition alt2 :: "string \<Rightarrow> string \<Rightarrow> string \<Rightarrow> (nat \<times> string) list" where
  "alt2 first second s =
     (case s of
        a # b # rest \<Rightarrow> if a \<in> set first \<and> b \<in> set second then [(int_of_digits [a, b], rest)] else []
      | _ \<Rightarrow> [])"

definition alt1 :: "string \<Rightarrow> string \<Rightarrow> (nat \<times> string) list" where
  "alt1 first s =
     (case s of
        a # rest \<Rightarrow> if a \<in> set first then [(int_of_digits [a], rest)] else []
      | _ \<Rightarrow> [])"

definition alt_space :: "string \<Rightarrow> (nat \<times> string) list" where
  "alt_space s =
     (case s of
        a # b # rest \<Rightarrow> if a = CHR '' '' \<and> b \<in> set ''123456789'' then [(int_of_digits [b], rest)] else []
      | _ \<Rightarrow> [])"

definition alts_m :: "string \<Rightarrow> (nat \<times> string) list" where
  "alts_m s = alt2 ''1'' ''012'' s @ alt2 ''0'' ''123456789'' s @ alt1 ''123456789'' s"

definition alts_d :: "string \<Rightarrow> (nat \<times> string) list" where
  "alts_d s = alt2 ''3'' ''01'' s @ alt2 ''12'' ''0123456789'' s @ alt2 ''0'' ''123456789'' s
              @ alt1 ''123456789'' s @ alt_space s"

text \<open>All matches of the whole expression, in the order backtracking finds them.\<close>

definition regex_Ymd :: "string \<Rightarrow> ((nat \<times> nat \<times> nat) \<times> string) list" where
  "regex_Ymd s =
     concat (map (\<lambda>(y, r1).
       concat (map (\<lambda>(m, r2).
         map (\<lambda>(d, r3). ((y, m, d), r3)) (alts_d r2)) (alts_m r1))) (alts_Y s))"

text \<open>
  \<^verbatim>\<open>datetime.strptime(data_string, "%Y%m%d")\<close>: ValueError when nothing matches, when the
  first match leaves text over, or when the numbers read are not a date of the
  \<^verbatim>\<open>datetime\<close> type (years 1 to 9999).
\<close>

definition strptime_Ymd :: "string \<Rightarrow> error + datetime" where
  "strptime_Ymd data_string =
     (case regex_Ymd data_string of
        [] \<Rightarrow> Inl (ValueError ''time data does not match format'')
      | ((y, m, d), rest) # _ \<Rightarrow>
          if rest \<noteq> [] then Inl (ValueError ''unconverted data remains'')
          else if y < 1 then Inl (ValueError ''year 0 is out of range'')
          else if days_in_month y m < d then Inl (ValueError ''day is out of range for month'')
          else Inr \<lparr>dt_year = y, dt_month = m, dt_day = d\<rparr>)"

text \<open>
  \<^verbatim>\<open>parsed_date.strftime("%Y%m%d")\<close>. Month and day are written with two digits. The year
  is written by the C library of the platform: with four digits, zero-padded, or, as
  CPython does on Linux before version 3.13, as the plain decimal number
  (\<^verbatim>\<open>datetime(999, 1, 1).strftime("%Y%m%d")\<close> is \<^verbatim>\<open>9990101\<close> there). \<open>pads_year\<close> says which.
\<close>

fun decimal :: "nat \<Rightarrow> string" where
  "decimal n = (if n < 10 then [digit_char n] else decimal (n div 10) @ [digit_char (n mod 10)])"

declare decimal.simps [simp del]

definition pad2 :: "nat \<Rightarrow> string" where
  "pad2 n = [digit_char (n div 10 mod 10), digit_char (n mod 10)]"

definition pad4 :: "nat \<Rightarrow> string" where
  "pad4 n = [digit_char (n div 1000 mod 10), digit_char (n div 100 mod 10), digit_char (n div 10 mod 10), digit_char (n mod 10)]"

definition strftime_Ymd :: "bool \<Rightarrow> datetime \<Rightarrow> string" where
  "strftime_Ymd pads_year dt =
     (if pads_year then pad4 (dt_year dt) else decimal (dt_year dt)) @ pad2 (dt_month dt) @ pad2 (dt_day dt)"

text \<open>
  \<^verbatim>\<open>validate_date_format(date_text)\<close>: parse, re-render, compare. It returns nothing
  (\<open>Inr ()\<close>) or raises ValueError.
\<close>

definition validate_date_format :: "bool \<Rightarrow> string \<Rightarrow> error + unit" where
  "validate_date_format pads_year date_text =
     (case strptime_Ymd date_text of
        Inl wrong_format_error \<Rightarrow>
          Inl (ValueError (''The date '' @ date_text @ '' is not in the correct format YYYYMMDD.''))
      | Inr parsed_date \<Rightarrow>
          if strftime_Ymd pads_year parsed_date \<noteq> date_text
          then Inl (ValueError (''The date '' @ date_text @ '' is not in the strict format YYYYMMDD.''))
          else Inr ())"

text \<open>
  The specification's side: a text is a canonical date when it is exactly eight decimal
  digits, four for the year, two for the month and two for the day, that form a date of
  the calendar (years 0001 to 9999, the range of \<^verbatim>\<open>datetime\<close>).
\<close>

definition canonical_date_text :: "string \<Rightarrow> bool" where
  "canonical_date_text s =
     (length s = 8 \<and> list_all is_digit s
      \<and> valid_date (int_of_digits (take 4 s)) (int_of_digits (take 2 (drop 4 s))) (int_of_digits (drop 6 s)))"

section \<open>The API client and the retriever (api\_client.py, endpoints.py)\<close>

text \<open>
  One call of \<^verbatim>\<open>requests.get(url, auth=..., headers=..., params=...)\<close>, as the transport
  sees it, and what comes back. \<open>resp_json\<close> is what \<^verbatim>\<open>response.json()\<close> returns, \<open>None\<close>
  when the body is not JSON.
\<close>

record request =
  req_method :: string
  req_url :: string
  req_auth :: "string \<times> string"
  req_headers :: "(string \<times> string) list"
  req_params :: "(string \<times> string) list option"

record response =
  status_code :: nat
  resp_text :: string
  resp_json :: "json option"

text \<open>The client holds \<^verbatim>\<open>HTTPBasicAuth(username, password)\<close>.\<close>

record ISONEClient =
  auth :: "string \<times> string"

definition BASE_URL :: string where
  "BASE_URL = ''https://webservices.iso-ne.com/api/v1.1''"

text \<open>\<^verbatim>\<open>get_data\<close> returns the parsed body for the format \<^verbatim>\<open>json\<close>, the raw text otherwise.\<close>

datatype payload = Parsed json | Raw string

text \<open>\<^verbatim>\<open>response.raise_for_status()\<close> raises HTTPError for the status codes 400 to 599.\<close>

definition raise_for_status :: "response \<Rightarrow> error + unit" where
  "raise_for_status r =
     (if 400 \<le> status_code r \<and> status_code r < 600 then Inl (HTTPError (status_code r)) else Inr ())"

text \<open>
  \<^verbatim>\<open>ISONEClient.get_data(endpoint, params=None, file_format="json")\<close>. The network is the
  parameter \<open>requests_get\<close>, which answers a request with a response or fails; \<open>sent\<close> is
  the list of requests issued so far, and the call returns it extended.
\<close>

definition get_data ::
  "(request \<Rightarrow> error + response) \<Rightarrow> ISONEClient \<Rightarrow> string \<Rightarrow> (string \<times> string) list option
     \<Rightarrow> string \<Rightarrow> request list \<Rightarrow> (error + payload) \<times> request list" where
  "get_data requests_get self endpoint params file_format sent =
     (let headers = [(''Accept'', ''application/'' @ file_format)];
          url = BASE_URL @ ''/'' @ endpoint @ ''.'' @ file_format;
          req = \<lparr>req_method = ''GET'', req_url = url, req_auth = auth self,
                 req_headers = headers, req_params = params\<rparr>
      in (case requests_get req of
            Inl e \<Rightarrow> (Inl e, sent @ [req])
          | Inr response \<Rightarrow>
              (case raise_for_status response of
                 Inl e \<Rightarrow> (Inl e, sent @ [req])
               | Inr _ \<Rightarrow>
                   if file_format = ''json''
                   then (case resp_json response of
                           None \<Rightarrow> (Inl JSONDecodeError, sent @ [req])
                         | Some parsed \<Rightarrow> (Inr (Parsed parsed), sent @ [req]))
                   else (Inr (Raw (resp_text response)), sent @ [req]))))"

record DataRetriever =
  api_client :: ISONEClient
  record_path :: "string list"

definition DailyFuelMixDataRetriever :: "ISONEClient \<Rightarrow> DataRetriever" where
  "DailyFuelMixDataRetriever client =
     \<lparr>api_client = client, record_path = [''GenFuelMixes'', ''GenFuelMix'']\<rparr>"

text \<open>
  \<^verbatim>\<open>DailyFuelMixDataRetriever.retrieve_data(day)\<close>: validate the day, build the endpoint
  \<^verbatim>\<open>f"genfuelmix/day/{day}"\<close>, ask the client.
\<close>

definition retrieve_data ::
  "bool \<Rightarrow> (request \<Rightarrow> error + response) \<Rightarrow> DataRetriever \<Rightarrow> string \<Rightarrow> request list
     \<Rightarrow> (error + payload) \<times> request list" where
  "retrieve_data pads_year requests_get self day sent =
     (case validate_date_format pads_year day of
        Inl e \<Rightarrow> (Inl e, sent)
      | Inr _ \<Rightarrow> get_data requests_get (api_client self) (''genfuelmix/day/'' @ day) None ''json'' sent)"

section \<open>Data frames (pandas)\<close>

text \<open>
  pandas is library code outside the repository. What follows models the two entry
  points \<^verbatim>\<open>parse_json_response\<close> calls, \<^verbatim>\<open>pd.DataFrame(data)\<close> and
  \<^verbatim>\<open>pd.json_normalize(data)\<close> with their default arguments, on JSON values, after pandas 2:
  which rows and columns the frame gets and which value each cell holds. The conversion
  of column types is not modelled. A cell is \<open>Some v\<close> for a value and \<open>None\<close> when it is
  empty (NaN).
\<close>

datatype label = LStr string | LInt nat

record frame =
  columns :: "label list"
  index :: "label list"
  cells :: "json option list list"

definition empty_frame :: frame where
  "empty_frame = \<lparr>columns = [], index = [], cells = []\<rparr>"

text \<open>The cell of row \<open>i\<close> under the column \<open>c\<close>, empty when there is no such column.\<close>

definition cell :: "frame \<Rightarrow> nat \<Rightarrow> label \<Rightarrow> json option" where
  "cell fr i c = (case map_of (zip (columns fr) (cells fr ! i)) c of None \<Rightarrow> None | Some x \<Rightarrow> x)"

text \<open>The union of several key lists, each key at the place where it is first seen.\<close>

fun union_keys :: "string list list \<Rightarrow> string list \<Rightarrow> string list" where
  "union_keys [] seen = seen"
| "union_keys (ks # rest) seen = union_keys rest (seen @ filter (\<lambda>k. k \<notin> set seen) (remdups ks))"

text \<open>A list of dicts: one row for each dict, one column for each key seen.\<close>

definition frame_of_records :: "(string \<times> json) list list \<Rightarrow> frame" where
  "frame_of_records recs =
     (let cols = union_keys (map (map fst) recs) []
      in \<lparr>columns = map LStr cols,
          index = map LInt [0..<length recs],
          cells = map (\<lambda>r. map (\<lambda>c. map_of r c) cols) recs\<rparr>)"

text \<open>
  A list of lists: each row is read with \<^verbatim>\<open>len\<close> and \<^verbatim>\<open>list\<close>, which a list, a dict (its keys)
  and a str (its characters) have; short rows are filled up.
\<close>

fun row_items :: "json \<Rightarrow> error + json list" where
  "row_items (JArray xs) = Inr xs"
| "row_items (JObject d) = Inr (map (\<lambda>kv. JStr (fst kv)) d)"
| "row_items (JStr s) = Inr (map (\<lambda>c. JStr [c]) s)"
| "row_items v = Inl (TypeError (''object of type '' @ [CHR 0x27] @ type_name v @ [CHR 0x27] @ '' has no len()''))"

fun all_rows :: "json list \<Rightarrow> error + json list list" where
  "all_rows [] = Inr []"
| "all_rows (x # xs) =
     (case row_items x of
        Inl e \<Rightarrow> Inl e
      | Inr r \<Rightarrow> (case all_rows xs of Inl e \<Rightarrow> Inl e | Inr rs \<Rightarrow> Inr (r # rs)))"

definition frame_of_rows :: "json list list \<Rightarrow> frame" where
  "frame_of_rows rs =
     (let k = fold (\<lambda>r m. max (length r) m) rs 0
      in \<lparr>columns = map LInt [0..<k],
          index = map LInt [0..<length rs],
          cells = map (\<lambda>r. map Some r @ replicate (k - length r) None) rs\<rparr>)"

fun dict_items :: "json \<Rightarrow> error + (string \<times> json) list" where
  "dict_items (JObject d) = Inr d"
| "dict_items v =
     Inl (AttributeError ([CHR 0x27] @ type_name v @ [CHR 0x27] @ '' object has no attribute ''
            @ [CHR 0x27] @ ''keys'' @ [CHR 0x27]))"

fun all_dicts :: "json list \<Rightarrow> error + (string \<times> json) list list" where
  "all_dicts [] = Inr []"
| "all_dicts (x # xs) =
     (case dict_items x of
        Inl e \<Rightarrow> Inl e
      | Inr d \<Rightarrow> (case all_dicts xs of Inl e \<Rightarrow> Inl e | Inr ds \<Rightarrow> Inr (d # ds)))"

text \<open>
  A dict: one column for each key. The rows come from the values: lists give their
  common length, dicts the union of their keys, and a value that is neither is repeated
  in every row.
\<close>

definition raw_lengths :: "(string \<times> json) list \<Rightarrow> nat list" where
  "raw_lengths d = concat (map (\<lambda>kv. case snd kv of JArray xs \<Rightarrow> [length xs] | _ \<Rightarrow> []) d)"

definition indexes :: "(string \<times> json) list \<Rightarrow> string list list" where
  "indexes d = concat (map (\<lambda>kv. case snd kv of JObject items \<Rightarrow> [map fst items] | _ \<Rightarrow> []) d)"

definition extract_index :: "(string \<times> json) list \<Rightarrow> error + label list" where
  "extract_index d =
     (if d = [] then Inr []
      else if indexes d = [] \<and> raw_lengths d = [] then
        Inl (ValueError ''If using all scalar values, you must pass an index'')
      else if raw_lengths d \<noteq> [] then
        (if 1 < length (remdups (raw_lengths d)) then
           Inl (ValueError ''All arrays must be of the same length'')
         else if indexes d \<noteq> [] then
           Inl (ValueError ''Mixing dicts with non-Series may lead to ambiguous ordering.'')
         else Inr (map LInt [0..<hd (raw_lengths d)]))
      else Inr (map LStr (union_keys (indexes d) [])))"

fun homogenize :: "label list \<Rightarrow> json \<Rightarrow> json option list" where
  "homogenize idx (JArray xs) = map Some xs"
| "homogenize idx (JObject items) = map (\<lambda>l. case l of LStr k \<Rightarrow> map_of items k | LInt n \<Rightarrow> None) idx"
| "homogenize idx v = replicate (length idx) (Some v)"

definition frame_of_dict :: "(string \<times> json) list \<Rightarrow> error + frame" where
  "frame_of_dict d =
     (case extract_index d of
        Inl e \<Rightarrow> Inl e
      | Inr idx \<Rightarrow>
          Inr \<lparr>columns = map (\<lambda>kv. LStr (fst kv)) d,
               index = idx,
               cells = map (\<lambda>i. map (\<lambda>kv. homogenize idx (snd kv) ! i) d) [0..<length idx]\<rparr>)"

text \<open>\<^verbatim>\<open>pd.DataFrame(data)\<close>\<close>

fun pd_DataFrame :: "json \<Rightarrow> error + frame" where
  "pd_DataFrame JNull = Inr empty_frame"
| "pd_DataFrame (JObject d) = frame_of_dict d"
| "pd_DataFrame (JArray []) = Inr empty_frame"
| "pd_DataFrame (JArray (JArray r # xs)) =
     (case all_rows (JArray r # xs) of Inl e \<Rightarrow> Inl e | Inr rs \<Rightarrow> Inr (frame_of_rows rs))"
| "pd_DataFrame (JArray (JObject d # xs)) =
     (case all_dicts (JObject d # xs) of Inl e \<Rightarrow> Inl e | Inr ds \<Rightarrow> Inr (frame_of_records ds))"
| "pd_DataFrame (JArray (x # xs)) =
     Inr \<lparr>columns = [LInt 0], index = map LInt [0..<length (x # xs)], cells = map (\<lambda>v. [Some v]) (x # xs)\<rparr>"
| "pd_DataFrame v = Inl (ValueError ''DataFrame constructor not properly called!'')"

text \<open>
  \<^verbatim>\<open>pd.json_normalize(data)\<close>. Each dict of the list is flattened: the entries that are not
  dicts keep their keys, and the entries of a nested dict are written under the key path
  joined with the separator, into a dict where a key written twice keeps its place and
  takes the later value. The frame is built from the flattened list.
\<close>

fun dict_set :: "(string \<times> json) list \<Rightarrow> string \<Rightarrow> json \<Rightarrow> (string \<times> json) list" where
  "dict_set [] k v = [(k, v)]"
| "dict_set (p # ps) k v = (if fst p = k then (k, v) # ps else p # dict_set ps k v)"

definition removeprefix :: "string \<Rightarrow> string \<Rightarrow> string" where
  "removeprefix prefix s = (if take (length prefix) s = prefix then drop (length prefix) s else s)"

definition new_key :: "string \<Rightarrow> string \<Rightarrow> string" where
  "new_key key_string key =
     (if key_string = [] then removeprefix ''.'' (key_string @ ''.'' @ key)
      else key_string @ ''.'' @ key)"

fun normalise_json :: "json \<Rightarrow> string \<Rightarrow> (string \<times> json) list \<Rightarrow> (string \<times> json) list"
  and normalise_items :: "(string \<times> json) list \<Rightarrow> string \<Rightarrow> (string \<times> json) list \<Rightarrow> (string \<times> json) list" where
  "normalise_json (JObject items) key_string normalized_dict = normalise_items items key_string normalized_dict"
| "normalise_json JNull key_string normalized_dict = dict_set normalized_dict key_string JNull"
| "normalise_json (JBool b) key_string normalized_dict = dict_set normalized_dict key_string (JBool b)"
| "normalise_json (JInt i) key_string normalized_dict = dict_set normalized_dict key_string (JInt i)"
| "normalise_json (JFloat r) key_string normalized_dict = dict_set normalized_dict key_string (JFloat r)"
| "normalise_json (JStr s) key_string normalized_dict = dict_set normalized_dict key_string (JStr s)"
| "normalise_json (JArray xs) key_string normalized_dict = dict_set normalized_dict key_string (JArray xs)"
| "normalise_items [] key_string normalized_dict = normalized_dict"
| "normalise_items (kv # rest) key_string normalized_dict =
     normalise_items rest key_string
       (normalise_json (snd kv) (new_key key_string (fst kv)) normalized_dict)"

definition is_dict :: "json \<Rightarrow> bool" where
  "is_dict v = (case v of JObject items \<Rightarrow> True | _ \<Rightarrow> False)"

definition normalise_json_ordered :: "(string \<times> json) list \<Rightarrow> (string \<times> json) list" where
  "normalise_json_ordered data =
     (let top_dict = filter (\<lambda>kv. \<not> is_dict (snd kv)) data;
          nested_dict = normalise_json (JObject (filter (\<lambda>kv. is_dict (snd kv)) data)) [] []
      in fold (\<lambda>kv acc. dict_set acc (fst kv) (snd kv)) nested_dict top_dict)"

fun simple_json_normalize :: "json \<Rightarrow> json" where
  "simple_json_normalize (JObject d) = JObject (normalise_json_ordered d)"
| "simple_json_normalize (JArray xs) = JArray (map simple_json_normalize xs)"
| "simple_json_normalize v = JObject []"

fun json_normalize :: "json \<Rightarrow> error + frame" where
  "json_normalize (JArray []) = Inr empty_frame"
| "json_normalize (JArray xs) = pd_DataFrame (simple_json_normalize (JArray xs))"
| "json_normalize (JObject d) = pd_DataFrame (simple_json_normalize (JArray [JObject d]))"
| "json_normalize v = Inl NotImplementedError"

text \<open>
  The specification's side: the columns a record gives rise to. A key whose value is not
  a mapping is a column of its own; the keys of a nested mapping are joined to the name
  of their parent with a dot, to any depth.
\<close>

definition dot_join :: "string \<Rightarrow> string \<Rightarrow> string" where
  "dot_join parent child = parent @ ''.'' @ child"

fun leaves :: "string \<Rightarrow> json \<Rightarrow> (string \<times> json) list"
  and leaves_items :: "string \<Rightarrow> (string \<times> json) list \<Rightarrow> (string \<times> json) list" where
  "leaves name (JObject items) = leaves_items name items"
| "leaves name JNull = [(name, JNull)]"
| "leaves name (JBool b) = [(name, JBool b)]"
| "leaves name (JInt i) = [(name, JInt i)]"
| "leaves name (JFloat r) = [(name, JFloat r)]"
| "leaves name (JStr s) = [(name, JStr s)]"
| "leaves name (JArray xs) = [(name, JArray xs)]"
| "leaves_items parent [] = []"
| "leaves_items parent (kv # rest) = leaves (dot_join parent (fst kv)) (snd kv) @ leaves_items parent rest"

fun flat_items :: "(string \<times> json) list \<Rightarrow> (string \<times> json) list" where
  "flat_items [] = []"
| "flat_items (kv # rest) = leaves (fst kv) (snd kv) @ flat_items rest"

definition flat_keys :: "(string \<times> json) list \<Rightarrow> string set" where
  "flat_keys record = fst ` set (flat_items record)"

text \<open>
  A record whose nested mappings all sit under keys that are not the empty string. Under
  the empty key the library writes the keys of the nested mapping without a leading dot.
\<close>

definition nested_keys_named :: "(string \<times> json) list \<Rightarrow> bool" where
  "nested_keys_named record = list_all (\<lambda>kv. fst kv \<noteq> [] \<or> \<not> is_dict (snd kv)) record"

text \<open>A frame is rectangular when every row has one cell for each column.\<close>

definition rectangular :: "frame \<Rightarrow> bool" where
  "rectangular fr = list_all (\<lambda>row. length row = length (columns fr)) (cells fr)"

text \<open>
  The specification's side: where a record path ends in a document. Each key is looked
  up in the mapping reached so far; there is no end when a key is absent or the value
  reached is not a mapping.
\<close>

fun lookup_path :: "json \<Rightarrow> string list \<Rightarrow> json option" where
  "lookup_path v [] = Some v"
| "lookup_path (JObject d) (k # ks) = (case map_of d k of None \<Rightarrow> None | Some v \<Rightarrow> lookup_path v ks)"
| "lookup_path v (k # ks) = None"

text \<open>A scalar is a value that is neither an array nor a mapping.\<close>

definition is_scalar :: "json \<Rightarrow> bool" where
  "is_scalar v = (case v of JArray xs \<Rightarrow> False | JObject items \<Rightarrow> False | _ \<Rightarrow> True)"

section \<open>The traversal\<close>

lemma walk_append:
  "walk doc (pre @ post) = (case walk doc pre of Inl e \<Rightarrow> Inl e | Inr v \<Rightarrow> walk v post)"
  by (induction pre arbitrary: doc) (simp_all split: sum.splits)

lemma walk_falsy_step:
  assumes "walk doc pre = Inr (JObject d)"
    and "\<not> truthy (dict_get d key (JArray []))"
  shows "walk doc (pre @ key # post) = Inl (KeyError (key_not_found key))"
  using assms by (simp add: walk_append)

lemma walk_snoc_falsy:
  assumes "walk doc pre = Inr (JObject d)"
    and "\<not> truthy (dict_get d key (JArray []))"
  shows "parse_json_response nz df doc (Some (pre @ key # post)) = Inl (KeyError (key_not_found key))"
proof -
  obtain k ks where split: "pre @ key # post = k # ks"
    by (cases pre) simp_all
  have "walk doc (k # ks) = Inl (KeyError (key_not_found key))"
    using walk_falsy_step [OF assms, of post] unfolding split .
  then show ?thesis
    unfolding parse_json_response_def split by simp
qed

lemma is_prefix_append: "is_prefix key (key @ rest)"
  by (induction key) simp_all

lemma names_prefix: "is_prefix key msg \<Longrightarrow> names msg key"
  by (cases msg; cases key) simp_all

lemma names_append: "names (before @ key @ rest) key"
proof (induction before)
  case Nil
  show ?case by (simp add: names_prefix is_prefix_append)
next
  case (Cons c before)
  then show ?case by simp
qed

lemma names_key_not_found: "names (key_not_found key) key"
  unfolding key_not_found_def
  using names_append [of "''Key '' @ [CHR 0x27]" key "[CHR 0x27] @ '' not found in the provided data.''"]
  by simp

lemma walk_truthy_end:
  assumes "walk doc path = Inr v" and "path \<noteq> []" and "type_name v \<noteq> ''list''"
  shows "parse_json_response nz df doc (Some path) = Inl (TypeError ''Nested data is not a list.'')"
proof -
  obtain k ks where split: "path = k # ks"
    using assms(2) by (cases path) simp_all
  have "walk doc (k # ks) = Inr v"
    using assms(1) unfolding split .
  moreover have "(case v of JArray xs \<Rightarrow> nz (JArray xs)
                   | _ \<Rightarrow> Inl (TypeError ''Nested data is not a list.''))
                 = Inl (TypeError ''Nested data is not a list.'')"
    using assms(3) by (cases v) simp_all
  ultimately show ?thesis
    unfolding parse_json_response_def split by simp
qed

section \<open>Claims about the traversal\<close>

text \<open>
  C10. For a mapping document and a non-empty record path, the parser raises its path
  error (KeyError) at the first step whose looked-up value is falsy, the final step
  included. The steps before it have each looked up a truthy value and have reached the
  mapping \<open>d\<close> (\<open>walk doc pre = Inr (JObject d)\<close>; with \<open>pre = []\<close> the document itself is
  \<open>d\<close>); the value looked up under \<open>key\<close> is falsy: the key is absent (the default \<^verbatim>\<open>[]\<close>
  comes back), or it holds an empty array, an empty mapping, an empty string, zero,
  \<^verbatim>\<open>False\<close> or \<^verbatim>\<open>None\<close>. Whatever follows in the path (\<open>post\<close>, empty when \<open>key\<close> is the
  terminal key), the result is the same KeyError naming \<open>key\<close>: neither the TypeError
  nor a table.
\<close>

theorem falsy_lookup_raises_key_error:
  assumes "walk doc pre = Inr (JObject d)"
    and "\<not> truthy (dict_get d key (JArray []))"
  shows "parse_json_response nz df doc (Some (pre @ key # post)) = Inl (KeyError (key_not_found key))
         \<and> names (key_not_found key) key"
  using walk_snoc_falsy [OF assms] names_key_not_found by simp

theorem falsy_lookup_raises_key_error_witness:
  "walk (JObject [(''A'', JObject [(''B'', JArray []), (''S'', JStr []), (''Z'', JInt 0),
                                   (''N'', JNull), (''M'', JObject [])])]) [''A'']
     = Inr (JObject [(''B'', JArray []), (''S'', JStr []), (''Z'', JInt 0),
                     (''N'', JNull), (''M'', JObject [])])
   \<and> parse_json_response Inr Inr
        (JObject [(''A'', JObject [(''B'', JArray []), (''S'', JStr []), (''Z'', JInt 0),
                                   (''N'', JNull), (''M'', JObject [])])])
        (Some ([''A''] @ ''B'' # [])) = Inl (KeyError (key_not_found ''B''))
   \<and> parse_json_response Inr Inr
        (JObject [(''A'', JObject [(''B'', JArray []), (''S'', JStr []), (''Z'', JInt 0),
                                   (''N'', JNull), (''M'', JObject [])])])
        (Some ([''A''] @ ''M'' # [''x''])) = Inl (KeyError (key_not_found ''M''))
   \<and> parse_json_response Inr Inr
        (JObject [(''A'', JObject [(''B'', JArray []), (''S'', JStr []), (''Z'', JInt 0),
                                   (''N'', JNull), (''M'', JObject [])])])
        (Some ([''A''] @ ''absent'' # [])) = Inl (KeyError (key_not_found ''absent''))"
proof -
  let ?d = "[(''B'', JArray []), (''S'', JStr []), (''Z'', JInt 0),
             (''N'', JNull), (''M'', JObject [])]"
  let ?doc = "JObject [(''A'', JObject ?d)]"
  have reach: "walk ?doc [''A''] = Inr (JObject ?d)"
    by (simp add: dict_get_def)
  have b: "\<not> truthy (dict_get ?d ''B'' (JArray []))"
    by (simp add: dict_get_def)
  have m: "\<not> truthy (dict_get ?d ''M'' (JArray []))"
    by (simp add: dict_get_def)
  have a: "\<not> truthy (dict_get ?d ''absent'' (JArray []))"
    by (simp add: dict_get_def)
  show ?thesis
    using reach
      falsy_lookup_raises_key_error [OF reach b, of Inr Inr "[]"]
      falsy_lookup_raises_key_error [OF reach m, of Inr Inr "[''x'']"]
      falsy_lookup_raises_key_error [OF reach a, of Inr Inr "[]"]
    by simp
qed

text \<open>
  C4, as the code has it. When the steps before have reached the mapping \<open>d\<close> and the next
  key of the record path is absent from \<open>d\<close>, the parser fails with a KeyError whose
  message names the offending key. The message is a function of that key alone: the path
  traversed so far is not part of the error.
\<close>

theorem absent_key_raises_key_error:
  assumes "walk doc pre = Inr (JObject d)"
    and "map_of d key = None"
  shows "parse_json_response nz df doc (Some (pre @ key # post)) = Inl (KeyError (key_not_found key))
         \<and> names (key_not_found key) key"
proof -
  have "\<not> truthy (dict_get d key (JArray []))"
    using assms(2) by (simp add: dict_get_def)
  from walk_snoc_falsy [OF assms(1) this] names_key_not_found
  show ?thesis by simp
qed

theorem absent_key_raises_key_error_witness:
  "walk (JObject [(''A'', JObject [(''B'', JArray [])])]) [''A''] = Inr (JObject [(''B'', JArray [])])
   \<and> map_of [(''B'', JArray [])] ''C'' = None
   \<and> parse_json_response Inr Inr (JObject [(''A'', JObject [(''B'', JArray [])])])
         (Some ([''A''] @ ''C'' # [])) = Inl (KeyError (key_not_found ''C''))
   \<and> names (key_not_found ''C'') ''C''"
proof -
  have reach: "walk (JObject [(''A'', JObject [(''B'', JArray [])])]) [''A'']
                 = Inr (JObject [(''B'', JArray [])])"
    by (simp add: dict_get_def)
  have absent: "map_of [(''B'', JArray [])] ''C'' = None"
    by simp
  show ?thesis
    using reach absent absent_key_raises_key_error [OF reach absent, of Inr Inr "[]"]
    by simp
qed

text \<open>
  C4 as the specification words it asks the error to name the path traversed so far as
  well. For the path \<^verbatim>\<open>["A", "C"]\<close> against \<^verbatim>\<open>{"A": {"B": []}}\<close> the error is the KeyError for
  \<^verbatim>\<open>C\<close>, and its message does not name \<^verbatim>\<open>A\<close>, the path traversed so far.
\<close>

theorem key_error_names_path_counterexample:
  "parse_json_response Inr Inr (JObject [(''A'', JObject [(''B'', JArray [])])]) (Some [''A'', ''C''])
     = Inl (KeyError (key_not_found ''C''))
   \<and> \<not> names (key_not_found ''C'') ''A''"
  by (simp add: parse_json_response_def dict_get_def key_not_found_def)

text \<open>
  C5, as the code has it. When every step of a non-empty record path has looked up a
  truthy value (\<open>walk doc path = Inr v\<close>) and the value reached is not a list, the parser
  raises the TypeError of its last branch.
\<close>

theorem truthy_non_list_raises_type_error:
  assumes "walk doc path = Inr v"
    and "path \<noteq> []"
    and "type_name v \<noteq> ''list''"
  shows "parse_json_response nz df doc (Some path) = Inl (TypeError ''Nested data is not a list.'')"
  using walk_truthy_end [OF assms] .

theorem truthy_non_list_raises_type_error_witness:
  "walk (JObject [(''A'', JObject [(''x'', JInt 1)])]) [''A''] = Inr (JObject [(''x'', JInt 1)])
   \<and> [''A''] \<noteq> []
   \<and> type_name (JObject [(''x'', JInt 1)]) \<noteq> ''list''
   \<and> parse_json_response Inr Inr (JObject [(''A'', JObject [(''x'', JInt 1)])]) (Some [''A''])
       = Inl (TypeError ''Nested data is not a list.'')"
proof -
  have reach: "walk (JObject [(''A'', JObject [(''x'', JInt 1)])]) [''A'']
                 = Inr (JObject [(''x'', JInt 1)])"
    by (simp add: dict_get_def)
  have ne: "[''A''] \<noteq> []" by simp
  have ty: "type_name (JObject [(''x'', JInt 1)]) \<noteq> ''list''" by simp
  show ?thesis
    using reach ty truthy_non_list_raises_type_error [OF reach ne ty, of Inr Inr]
    by simp
qed

text \<open>
  C5 as the specification words it promises the shape error for every terminal value that
  is not an array. A terminal value that is falsy never reaches the list test: for the
  record path \<^verbatim>\<open>["A"]\<close> the documents \<^verbatim>\<open>{"A": {}}\<close> (a mapping) and \<^verbatim>\<open>{"A": 0}\<close> (a scalar)
  raise the KeyError, not the TypeError.
\<close>

theorem falsy_terminal_not_type_error_counterexample:
  "parse_json_response Inr Inr (JObject [(''A'', JObject [])]) (Some [''A''])
     = Inl (KeyError (key_not_found ''A''))
   \<and> parse_json_response Inr Inr (JObject [(''A'', JInt 0)]) (Some [''A''])
     = Inl (KeyError (key_not_found ''A''))"
  by (simp add: parse_json_response_def dict_get_def)

text \<open>
  C2, as the code has it. When the steps before have reached the mapping \<open>d\<close> and the
  terminal key holds an empty array, the parser raises the KeyError naming the terminal
  key: it returns no table.
\<close>

theorem empty_terminal_array_raises_key_error:
  assumes "walk doc pre = Inr (JObject d)"
    and "map_of d key = Some (JArray [])"
  shows "parse_json_response nz df doc (Some (pre @ [key])) = Inl (KeyError (key_not_found key))"
proof -
  have "\<not> truthy (dict_get d key (JArray []))"
    using assms(2) by (simp add: dict_get_def)
  from walk_snoc_falsy [OF assms(1) this, of nz df "[]"]
  show ?thesis .
qed

theorem empty_terminal_array_raises_key_error_witness:
  "walk (JObject [(''A'', JObject [(''B'', JArray [])])]) [''A''] = Inr (JObject [(''B'', JArray [])])
   \<and> map_of [(''B'', JArray [])] ''B'' = Some (JArray [])
   \<and> parse_json_response Inr Inr (JObject [(''A'', JObject [(''B'', JArray [])])])
         (Some ([''A''] @ [''B''])) = Inl (KeyError (key_not_found ''B''))"
proof -
  have reach: "walk (JObject [(''A'', JObject [(''B'', JArray [])])]) [''A'']
                 = Inr (JObject [(''B'', JArray [])])"
    by (simp add: dict_get_def)
  have held: "map_of [(''B'', JArray [])] ''B'' = Some (JArray [])"
    by simp
  show ?thesis
    using reach held empty_terminal_array_raises_key_error [OF reach held, of Inr Inr]
    by simp
qed

text \<open>
  C2 as the specification words it: the document \<^verbatim>\<open>{"A": {"B": []}}\<close> with the record path
  \<^verbatim>\<open>["A", "B"]\<close> is to give a table with no rows. The parser raises the KeyError for
  \<^verbatim>\<open>B\<close>, whatever the frame library is.
\<close>

theorem empty_terminal_array_counterexample:
  "parse_json_response Inr Inr (JObject [(''A'', JObject [(''B'', JArray [])])]) (Some [''A'', ''B''])
     = Inl (KeyError (key_not_found ''B''))"
  by (simp add: parse_json_response_def dict_get_def)

text \<open>
  C9. The parser is to fail only with its path error or its shape error. A truthy value
  that is not a mapping, met before the record path is used up, has no \<^verbatim>\<open>get\<close>: the
  document \<^verbatim>\<open>{"A": 5}\<close> with the record path \<^verbatim>\<open>["A", "B"]\<close> ends in an AttributeError, and so
  does a document that is a list.
\<close>

theorem non_mapping_step_raises_attribute_error:
  "parse_json_response Inr Inr (JObject [(''A'', JInt 5)]) (Some [''A'', ''B''])
     = Inl (AttributeError ([CHR 0x27] @ ''int'' @ [CHR 0x27] @ '' object has no attribute ''
                             @ [CHR 0x27] @ ''get'' @ [CHR 0x27]))
   \<and> parse_json_response Inr Inr (JArray [JObject [(''A'', JInt 1)]]) (Some [''A''])
     = Inl (AttributeError ([CHR 0x27] @ ''list'' @ [CHR 0x27] @ '' object has no attribute ''
                             @ [CHR 0x27] @ ''get'' @ [CHR 0x27]))"
  by (simp add: parse_json_response_def dict_get_def)

section \<open>Claims about the endpoint descriptor\<close>

text \<open>
  C7. \<^verbatim>\<open>create_endpoint_url\<close> is to put each supplied parameter into its placeholder:
  the template \<^verbatim>\<open>genfuelmix/day/{day}\<close> with \<^verbatim>\<open>day = "20231201"\<close> is to give
  \<^verbatim>\<open>genfuelmix/day/20231201\<close>. The function passes the parameters as a positional
  argument, so the named field \<^verbatim>\<open>{day}\<close> is looked up among no keyword arguments: for
  the shipped descriptor the call ends in \<^verbatim>\<open>KeyError('day')\<close>, whatever parameters are
  supplied and however an argument would be rendered.
\<close>

theorem create_endpoint_url_named_field_key_error:
  "create_endpoint_url render DailyFuelMix (Some [(''day'', ''20231201'')]) = Inl (KeyError ''day'')
   \<and> create_endpoint_url render DailyFuelMix parameters = Inl (KeyError ''day'')"
  by (simp add: create_endpoint_url_def DailyFuelMix_def str_format_def name_step_def
      finish_field_def output_markup_def select_arg_def first_part_def is_digit_def)

section \<open>The date validator: parsing and rendering\<close>

lemma digit_value_digit_char: "k < 10 \<Longrightarrow> digit_value (digit_char k) = k"
  by (simp add: digit_value_def digit_char_def)

lemma is_digit_digit_char: "k < 10 \<Longrightarrow> is_digit (digit_char k)"
  by (simp add: is_digit_def digit_char_def)

lemma decompose4:
  fixes y :: nat
  shows "10 * (10 * (10 * (y div 1000 mod 10) + y div 100 mod 10) + y div 10 mod 10) + y mod 10
         = y mod 10000"
proof -
  have a: "y div 100 = y div 10 div 10" and b: "y div 1000 = y div 10 div 10 div 10"
    by (simp_all add: div_mult2_eq)
  have c: "y mod 10000 = y mod 10 + 10 * (y div 10 mod 10) + 100 * (y div 10 div 10 mod 10)
             + 1000 * (y div 10 div 10 div 10 mod 10)"
    using mod_mult2_eq [of y 10 1000] mod_mult2_eq [of "y div 10" 10 100]
      mod_mult2_eq [of "y div 10 div 10" 10 10]
    by simp
  show ?thesis unfolding a b c by simp
qed

lemma int_of_digits_pad4: "y \<le> 9999 \<Longrightarrow> int_of_digits (pad4 y) = y"
  using decompose4 [of y]
  by (simp add: int_of_digits_def pad4_def digit_value_digit_char)

lemma digit_char_digit_value: "is_digit c \<Longrightarrow> digit_char (digit_value c) = c"
  by (simp add: is_digit_def digit_char_def digit_value_def)

lemma digit_value_less: "is_digit c \<Longrightarrow> digit_value c < 10"
  by (auto simp add: is_digit_def digit_value_def)

lemma digit_chars:
  "digit_char 0 = CHR ''0''" "digit_char 1 = CHR ''1''" "digit_char 2 = CHR ''2''"
  "digit_char 3 = CHR ''3''" "digit_char 4 = CHR ''4''" "digit_char 5 = CHR ''5''"
  "digit_char 6 = CHR ''6''" "digit_char 7 = CHR ''7''" "digit_char 8 = CHR ''8''"
  "digit_char 9 = CHR ''9''" "digit_char (Suc 0) = CHR ''1''"
  using char_of_char [of "CHR ''0''", where ?'a = nat] char_of_char [of "CHR ''1''", where ?'a = nat]
    char_of_char [of "CHR ''2''", where ?'a = nat] char_of_char [of "CHR ''3''", where ?'a = nat]
    char_of_char [of "CHR ''4''", where ?'a = nat] char_of_char [of "CHR ''5''", where ?'a = nat]
    char_of_char [of "CHR ''6''", where ?'a = nat] char_of_char [of "CHR ''7''", where ?'a = nat]
    char_of_char [of "CHR ''8''", where ?'a = nat] char_of_char [of "CHR ''9''", where ?'a = nat]
  by (simp_all add: digit_char_def)

lemma alts_Y_pad4: "y \<le> 9999 \<Longrightarrow> alts_Y (pad4 y @ r) = [(y, r)]"
  using int_of_digits_pad4 [of y]
  by (simp add: pad4_def is_digit_digit_char)

lemma month_cases:
  fixes m :: nat
  assumes "1 \<le> m" "m \<le> 12"
  shows "m = 1 \<or> m = 2 \<or> m = 3 \<or> m = 4 \<or> m = 5 \<or> m = 6 \<or> m = 7 \<or> m = 8 \<or> m = 9
         \<or> m = 10 \<or> m = 11 \<or> m = 12"
  using assms by arith

lemma alts_m_pad2:
  assumes "1 \<le> m" "m \<le> 12"
  shows "\<exists>xs. alts_m (pad2 m @ r) = (m, r) # xs"
  using month_cases [OF assms]
  by (elim disjE)
     (simp_all add: alts_m_def alt2_def alt1_def pad2_def digit_chars int_of_digits_def digit_value_def)

lemma day_cases:
  fixes d :: nat
  assumes "1 \<le> d" "d \<le> 31"
  shows "d = 1 \<or> d = 2 \<or> d = 3 \<or> d = 4 \<or> d = 5 \<or> d = 6 \<or> d = 7 \<or> d = 8 \<or> d = 9
         \<or> d = 10 \<or> d = 11 \<or> d = 12 \<or> d = 13 \<or> d = 14 \<or> d = 15 \<or> d = 16 \<or> d = 17
         \<or> d = 18 \<or> d = 19 \<or> d = 20 \<or> d = 21 \<or> d = 22 \<or> d = 23 \<or> d = 24 \<or> d = 25
         \<or> d = 26 \<or> d = 27 \<or> d = 28 \<or> d = 29 \<or> d = 30 \<or> d = 31"
  using assms by arith

lemma alts_d_pad2:
  assumes "1 \<le> d" "d \<le> 31"
  shows "\<exists>xs. alts_d (pad2 d @ r) = (d, r) # xs"
  using day_cases [OF assms]
  by (elim disjE)
     (simp_all add: alts_d_def alt2_def alt1_def alt_space_def pad2_def digit_chars int_of_digits_def digit_value_def)

lemma regex_Ymd_canonical:
  assumes "valid_date y m d"
  shows "\<exists>xs. regex_Ymd (pad4 y @ pad2 m @ pad2 d) = ((y, m, d), []) # xs"
proof -
  have y: "alts_Y (pad4 y @ pad2 m @ pad2 d) = [(y, pad2 m @ pad2 d)]"
    using assms alts_Y_pad4 [of y "pad2 m @ pad2 d"] by (simp add: valid_date_def)
  obtain ms where m: "alts_m (pad2 m @ pad2 d) = (m, pad2 d) # ms"
    using assms alts_m_pad2 [of m "pad2 d"] by (auto simp add: valid_date_def)
  have "d \<le> 31"
    using assms by (simp add: valid_date_def days_in_month_def split: if_splits)
  then obtain ds where d: "alts_d (pad2 d) = (d, []) # ds"
    using assms alts_d_pad2 [of d "[]"] by (auto simp add: valid_date_def)
  show ?thesis
    by (simp add: regex_Ymd_def y m d)
qed

lemma strptime_Ymd_canonical:
  assumes "valid_date y m d"
  shows "strptime_Ymd (pad4 y @ pad2 m @ pad2 d) = Inr \<lparr>dt_year = y, dt_month = m, dt_day = d\<rparr>"
proof -
  obtain xs where "regex_Ymd (pad4 y @ pad2 m @ pad2 d) = ((y, m, d), []) # xs"
    using regex_Ymd_canonical [OF assms] by blast
  then show ?thesis
    using assms by (simp add: strptime_Ymd_def valid_date_def)
qed

lemma alts_m_range: "(m, r) \<in> set (alts_m s) \<Longrightarrow> 1 \<le> m \<and> m \<le> 12"
  by (auto simp add: alts_m_def alt2_def alt1_def int_of_digits_def digit_value_def
      split: list.splits if_splits)

lemma alts_d_range: "(d, r) \<in> set (alts_d s) \<Longrightarrow> 1 \<le> d \<and> d \<le> 31"
  by (auto simp add: alts_d_def alt2_def alt1_def alt_space_def int_of_digits_def digit_value_def
      split: list.splits if_splits)

lemma alts_Y_elem:
  assumes "(y, r) \<in> set (alts_Y s)"
  shows "\<exists>a b c d. s = a # b # c # d # r \<and> is_digit a \<and> is_digit b \<and> is_digit c \<and> is_digit d
           \<and> y = int_of_digits [a, b, c, d]"
  using assms by (cases s rule: alts_Y.cases) (auto split: if_splits)

lemma regex_Ymd_elem:
  assumes "((y, m, d), rest) \<in> set (regex_Ymd s)"
  shows "\<exists>r1 r2. (y, r1) \<in> set (alts_Y s) \<and> (m, r2) \<in> set (alts_m r1) \<and> (d, rest) \<in> set (alts_d r2)"
  using assms by (auto simp add: regex_Ymd_def)

lemma strptime_Ymd_Inr:
  assumes "strptime_Ymd s = Inr dt"
  shows "valid_date (dt_year dt) (dt_month dt) (dt_day dt)
         \<and> (\<exists>a b c d r. s = a # b # c # d # r \<and> is_digit a \<and> is_digit b \<and> is_digit c \<and> is_digit d
               \<and> dt_year dt = int_of_digits [a, b, c, d])"
proof -
  obtain y m d xs where first: "regex_Ymd s = ((y, m, d), []) # xs"
    and dt: "dt = \<lparr>dt_year = y, dt_month = m, dt_day = d\<rparr>" and y1: "1 \<le> y" and dim: "d \<le> days_in_month y m"
    using assms
    by (auto simp add: strptime_Ymd_def split: list.splits if_splits)
  have "((y, m, d), []) \<in> set (regex_Ymd s)"
    using first by simp
  then obtain r1 r2 where Y: "(y, r1) \<in> set (alts_Y s)" and M: "(m, r2) \<in> set (alts_m r1)"
    and D: "(d, []) \<in> set (alts_d r2)"
    using regex_Ymd_elem by blast
  obtain a b c e where s: "s = a # b # c # e # r1"
    and digits: "is_digit a" "is_digit b" "is_digit c" "is_digit e"
    and y: "y = int_of_digits [a, b, c, e]"
    using alts_Y_elem [OF Y] by blast
  have "y \<le> 9999"
    using digits [THEN digit_value_less] by (simp add: y int_of_digits_def)
  then have "valid_date y m d"
    using y1 dim alts_m_range [OF M] alts_d_range [OF D] by (simp add: valid_date_def)
  then show ?thesis
    using s digits y dt by simp
qed

lemma shift_digit:
  fixes x d :: nat
  assumes "d < 10"
  shows "(10 * x + d) div 10 = x" and "(10 * x + d) mod 10 = d"
  using assms by simp_all

lemma pad4_int_of_digits:
  assumes "is_digit a" "is_digit b" "is_digit c" "is_digit d"
  shows "pad4 (int_of_digits [a, b, c, d]) = [a, b, c, d]"
proof -
  let ?A = "digit_value a" and ?B = "digit_value b" and ?C = "digit_value c" and ?D = "digit_value d"
  let ?n = "10 * (10 * (10 * ?A + ?B) + ?C) + ?D"
  note lt = assms [THEN digit_value_less]
  have n: "int_of_digits [a, b, c, d] = ?n"
    by (simp add: int_of_digits_def)
  have d0: "?n mod 10 = ?D" and d1: "?n div 10 = 10 * (10 * ?A + ?B) + ?C"
    using lt(4) by (rule shift_digit)+
  have d2: "?n div 10 mod 10 = ?C" and d3: "?n div 10 div 10 = 10 * ?A + ?B"
    unfolding d1 using lt(3) by (rule shift_digit)+
  have d4: "?n div 10 div 10 mod 10 = ?B" and d5: "?n div 10 div 10 div 10 = ?A"
    unfolding d3 using lt(2) by (rule shift_digit)+
  have h: "?n div 100 = ?n div 10 div 10" "?n div 1000 = ?n div 10 div 10 div 10"
    by (simp_all only: div_mult2_eq [symmetric]) simp_all
  have "pad4 ?n = [digit_char ?A, digit_char ?B, digit_char ?C, digit_char ?D]"
    unfolding pad4_def h d0 d2 d4 d5 using lt(1) by simp
  then show ?thesis
    unfolding n using assms by (simp add: digit_char_digit_value)
qed

lemma pad2_int_of_digits:
  assumes "is_digit a" "is_digit b"
  shows "pad2 (int_of_digits [a, b]) = [a, b]"
proof -
  note lt = assms [THEN digit_value_less]
  have "pad2 (10 * digit_value a + digit_value b) = [digit_char (digit_value a), digit_char (digit_value b)]"
    unfolding pad2_def using lt shift_digit [of "digit_value b" "digit_value a"] by simp
  then show ?thesis
    using assms by (simp add: int_of_digits_def digit_char_digit_value)
qed

lemma int_of_digits_pad2: "n \<le> 99 \<Longrightarrow> int_of_digits (pad2 n) = n"
  by (simp add: int_of_digits_def pad2_def digit_value_digit_char)

lemma canonical_compose:
  assumes "valid_date y m d"
  shows "canonical_date_text (pad4 y @ pad2 m @ pad2 d)"
    and "int_of_digits (take 4 (pad4 y @ pad2 m @ pad2 d)) = y"
proof -
  have y: "y \<le> 9999" and m: "m \<le> 99" and d: "d \<le> 99"
    using assms by (simp_all add: valid_date_def days_in_month_def split: if_splits)
  have len: "length (pad4 y) = 4" "length (pad2 m) = 2" "length (pad2 d) = 2"
    by (simp_all add: pad4_def pad2_def)
  have digits: "list_all is_digit (pad4 y @ pad2 m @ pad2 d)"
    by (simp add: pad4_def pad2_def is_digit_digit_char)
  show "int_of_digits (take 4 (pad4 y @ pad2 m @ pad2 d)) = y"
    using int_of_digits_pad4 [OF y] len by simp
  moreover have "int_of_digits (take 2 (drop 4 (pad4 y @ pad2 m @ pad2 d))) = m"
    using int_of_digits_pad2 [OF m] len by simp
  moreover have "int_of_digits (drop 6 (pad4 y @ pad2 m @ pad2 d)) = d"
    using int_of_digits_pad2 [OF d] len by simp
  ultimately show "canonical_date_text (pad4 y @ pad2 m @ pad2 d)"
    using assms digits len by (simp add: canonical_date_text_def)
qed

lemma length_eight:
  assumes "length s = 8"
  obtains a b c d e f g h where "s = [a, b, c, d, e, f, g, h]"
proof -
  from assms obtain a b c d e f g h where "s = [a, b, c, d, e, f, g, h]"
    by (auto simp add: numeral_eq_Suc length_Suc_conv)
  then show ?thesis by (rule that)
qed

lemma canonical_decompose:
  assumes "canonical_date_text s"
  shows "\<exists>y m d. valid_date y m d \<and> s = pad4 y @ pad2 m @ pad2 d \<and> int_of_digits (take 4 s) = y"
proof -
  from assms have "length s = 8"
    by (simp add: canonical_date_text_def)
  then obtain a b c d e f g h where s: "s = [a, b, c, d, e, f, g, h]"
    by (rule length_eight)
  from assms have digits: "is_digit a" "is_digit b" "is_digit c" "is_digit d"
    "is_digit e" "is_digit f" "is_digit g" "is_digit h"
    and valid: "valid_date (int_of_digits [a, b, c, d]) (int_of_digits [e, f]) (int_of_digits [g, h])"
    by (simp_all add: canonical_date_text_def s)
  have "s = pad4 (int_of_digits [a, b, c, d]) @ pad2 (int_of_digits [e, f]) @ pad2 (int_of_digits [g, h])"
    using digits by (simp add: s pad4_int_of_digits pad2_int_of_digits)
  moreover have "int_of_digits (take 4 s) = int_of_digits [a, b, c, d]"
    by (simp add: s)
  ultimately show ?thesis
    using valid by blast
qed

lemma decimal_head:
  "1 \<le> n \<Longrightarrow> \<exists>c cs. decimal n = c # cs \<and> c \<noteq> CHR ''0''"
proof (induction n rule: decimal.induct)
  case (1 n)
  show ?case
  proof (cases "n < 10")
    case True
    have "digit_value (digit_char n) = n"
      using True by (rule digit_value_digit_char)
    moreover have "digit_value (CHR ''0'') = 0"
      by (simp add: digit_value_def)
    ultimately have "digit_char n \<noteq> CHR ''0''"
      using "1.prems" by auto
    then show ?thesis
      using True by (simp add: decimal.simps [of n])
  next
    case False
    then have "1 \<le> n div 10" by simp
    with "1.IH" False obtain c cs where "decimal (n div 10) = c # cs" "c \<noteq> CHR ''0''"
      by blast
    then show ?thesis
      using False by (simp add: decimal.simps [of n])
  qed
qed

lemma decimal_four_digits:
  assumes "1000 \<le> y" "y \<le> 9999"
  shows "decimal y = pad4 y"
proof -
  have a: "y div 100 = y div 10 div 10" and b: "y div 1000 = y div 10 div 10 div 10"
    by (simp_all add: div_mult2_eq)
  have big: "\<not> y < 10" "\<not> y div 10 < 10" "\<not> y div 10 div 10 < 10" "y div 10 div 10 div 10 < 10"
    using assms by (simp_all add: a [symmetric] b [symmetric])
  show ?thesis
    using big
    by (simp add: decimal.simps [of y] decimal.simps [of "y div 10"] decimal.simps [of "y div 10 div 10"]
        decimal.simps [of "y div 10 div 10 div 10"] pad4_def a b)
qed

lemma validate_Inr_iff:
  "validate_date_format pads s = Inr ()
   \<longleftrightarrow> (\<exists>dt. strptime_Ymd s = Inr dt \<and> strftime_Ymd pads dt = s)"
  by (auto simp add: validate_date_format_def split: sum.splits)

lemma validate_outcome:
  "validate_date_format pads s = Inr ()
   \<or> validate_date_format pads s
        = Inl (ValueError (''The date '' @ s @ '' is not in the correct format YYYYMMDD.''))
   \<or> validate_date_format pads s
        = Inl (ValueError (''The date '' @ s @ '' is not in the strict format YYYYMMDD.''))"
  by (simp add: validate_date_format_def split: sum.splits)

lemma leading_zero:
  assumes "is_digit a" "is_digit b" "is_digit c" "is_digit d"
    and "int_of_digits [a, b, c, d] < 1000"
  shows "a = CHR ''0''"
proof -
  have "digit_value a = 0"
    using assms(5) by (simp add: int_of_digits_def)
  then show ?thesis
    using digit_char_digit_value [OF assms(1)] by (simp add: digit_chars)
qed

lemma validate_accepts:
  assumes "canonical_date_text s" and "pads \<or> 1000 \<le> int_of_digits (take 4 s)"
  shows "validate_date_format pads s = Inr ()"
proof -
  obtain y m d where valid: "valid_date y m d" and s: "s = pad4 y @ pad2 m @ pad2 d"
    and y: "int_of_digits (take 4 s) = y"
    using canonical_decompose [OF assms(1)] by blast
  have parsed: "strptime_Ymd s = Inr \<lparr>dt_year = y, dt_month = m, dt_day = d\<rparr>"
    unfolding s using valid by (rule strptime_Ymd_canonical)
  have "decimal y = pad4 y" if "\<not> pads"
    using that assms(2) valid decimal_four_digits [of y] by (auto simp add: y valid_date_def)
  then have "strftime_Ymd pads \<lparr>dt_year = y, dt_month = m, dt_day = d\<rparr> = s"
    by (simp add: strftime_Ymd_def s)
  with parsed show ?thesis
    unfolding validate_Inr_iff by blast
qed

lemma validate_accepted:
  assumes "validate_date_format pads s = Inr ()"
  shows "canonical_date_text s \<and> (pads \<or> 1000 \<le> int_of_digits (take 4 s))"
proof -
  obtain dt where parsed: "strptime_Ymd s = Inr dt" and rendered: "strftime_Ymd pads dt = s"
    using assms unfolding validate_Inr_iff by blast
  obtain a b c d r where valid: "valid_date (dt_year dt) (dt_month dt) (dt_day dt)"
    and s: "s = a # b # c # d # r"
    and digits: "is_digit a" "is_digit b" "is_digit c" "is_digit d"
    and y: "dt_year dt = int_of_digits [a, b, c, d]"
    using strptime_Ymd_Inr [OF parsed] by blast
  have big: "pads \<or> 1000 \<le> dt_year dt"
  proof (rule ccontr)
    assume "\<not> (pads \<or> 1000 \<le> dt_year dt)"
    then have plain: "\<not> pads" and small: "dt_year dt < 1000"
      by simp_all
    have "a = CHR ''0''"
      using digits small unfolding y by (rule leading_zero)
    moreover obtain c0 cs where "decimal (dt_year dt) = c0 # cs" "c0 \<noteq> CHR ''0''"
      using decimal_head [of "dt_year dt"] valid by (auto simp add: valid_date_def)
    ultimately show False
      using rendered plain by (simp add: strftime_Ymd_def s)
  qed
  then have "decimal (dt_year dt) = pad4 (dt_year dt)" if "\<not> pads"
    using that valid decimal_four_digits [of "dt_year dt"] by (auto simp add: valid_date_def)
  then have shape: "s = pad4 (dt_year dt) @ pad2 (dt_month dt) @ pad2 (dt_day dt)"
    using rendered by (cases pads) (simp_all add: strftime_Ymd_def)
  have "canonical_date_text s" and "int_of_digits (take 4 s) = dt_year dt"
    using canonical_compose [OF valid] shape by simp_all
  with big show ?thesis by simp
qed

section \<open>Claims about the date validator\<close>

text \<open>
  What the comparison of the source lets through. The text has to be a canonical date
  text and its re-rendering has to give the text back; a text that is let through is
  always a canonical date text, and every other text raises ValueError, with one of the
  two messages of the source. Where the platform writes the year zero-padded these are
  all canonical date texts.
\<close>

theorem validate_date_format_characterised:
  "(validate_date_format pads s = Inr ())
     = (canonical_date_text s \<and> (pads \<or> 1000 \<le> int_of_digits (take 4 s)))
   \<and> (validate_date_format pads s = Inr ()
      \<or> validate_date_format pads s
           = Inl (ValueError (''The date '' @ s @ '' is not in the correct format YYYYMMDD.''))
      \<or> validate_date_format pads s
           = Inl (ValueError (''The date '' @ s @ '' is not in the strict format YYYYMMDD.'')))"
  using validate_accepts [of s pads] validate_accepted [of pads s] validate_outcome [of pads s]
  by blast

text \<open>
  C3. The validator is to succeed for every text of exactly eight digits that form a
  calendar date in the form YYYYMMDD, as its docstring says, and to fail for every other.
  Where the platform renders the year as the plain number, \<^verbatim>\<open>09990101\<close>, the first of January
  999 in that form, is parsed to that date, re-rendered as \<^verbatim>\<open>9990101\<close>, and rejected with the
  ValueError of the comparison.
\<close>

theorem validate_date_format_rejects_year_999:
  "canonical_date_text ''09990101''
   \<and> strptime_Ymd ''09990101'' = Inr \<lparr>dt_year = 999, dt_month = 1, dt_day = 1\<rparr>
   \<and> strftime_Ymd False \<lparr>dt_year = 999, dt_month = 1, dt_day = 1\<rparr> = ''9990101''
   \<and> validate_date_format False ''09990101''
       = Inl (ValueError ''The date 09990101 is not in the strict format YYYYMMDD.'')"
proof -
  have valid: "valid_date 999 1 1"
    by (simp add: valid_date_def days_in_month_def)
  have written: "pad4 999 @ pad2 1 @ pad2 1 = ''09990101''"
    by (simp add: pad4_def pad2_def digit_chars)
  have parsed: "strptime_Ymd ''09990101'' = Inr \<lparr>dt_year = 999, dt_month = 1, dt_day = 1\<rparr>"
    using strptime_Ymd_canonical [OF valid] unfolding written .
  have rendered: "strftime_Ymd False \<lparr>dt_year = 999, dt_month = 1, dt_day = 1\<rparr> = ''9990101''"
    by (simp add: strftime_Ymd_def pad2_def digit_chars decimal.simps [of 999] decimal.simps [of 99]
        decimal.simps [of 9])
  have "canonical_date_text ''09990101''"
    using canonical_compose(1) [OF valid] unfolding written .
  then show ?thesis
    using parsed rendered by (simp add: validate_date_format_def)
qed

text \<open>The examples of the specification, on either kind of platform.\<close>

lemma validate_date_format_examples:
  "validate_date_format pads ''20231201'' = Inr ()"
  "validate_date_format pads ''2023-12-01''
     = Inl (ValueError ''The date 2023-12-01 is not in the correct format YYYYMMDD.'')"
  "validate_date_format pads ''20231301''
     = Inl (ValueError ''The date 20231301 is not in the correct format YYYYMMDD.'')"
proof -
  have valid: "valid_date 2023 12 1"
    by (simp add: valid_date_def days_in_month_def)
  have written: "pad4 2023 @ pad2 12 @ pad2 1 = ''20231201''"
    by (simp add: pad4_def pad2_def digit_chars)
  have "canonical_date_text ''20231201''" "int_of_digits (take 4 ''20231201'') = 2023"
    using canonical_compose [OF valid] unfolding written .
  then show "validate_date_format pads ''20231201'' = Inr ()"
    using validate_accepts [of "''20231201''" pads] by simp
  show "validate_date_format pads ''2023-12-01''
          = Inl (ValueError ''The date 2023-12-01 is not in the correct format YYYYMMDD.'')"
    by (simp add: validate_date_format_def strptime_Ymd_def regex_Ymd_def alts_m_def alts_d_def
        alt2_def alt1_def alt_space_def is_digit_def)
  show "validate_date_format pads ''20231301''
          = Inl (ValueError ''The date 20231301 is not in the correct format YYYYMMDD.'')"
    by (simp add: validate_date_format_def strptime_Ymd_def regex_Ymd_def alts_m_def alts_d_def
        alt2_def alt1_def alt_space_def is_digit_def int_of_digits_def digit_value_def)
qed

section \<open>Claims about retrieval\<close>

text \<open>
  C6. A retrieval call on the daily fuel-mix retriever with the day \<^verbatim>\<open>20231201\<close> issues
  exactly one request: a GET of the base URL joined with
  \<^verbatim>\<open>genfuelmix/day/20231201.json\<close>, with the header \<^verbatim>\<open>Accept: application/json\<close> and the
  client's credentials as basic authentication. When the transport answers with a
  response whose status is no error and whose body is JSON, the call returns the parsed
  body; a transport failure, an error status or a body that is not JSON is the error of
  the call.
\<close>

theorem retrieve_data_issues_one_get:
  "retrieve_data pads_year requests_get (DailyFuelMixDataRetriever client) ''20231201'' sent
   = ((case requests_get
             \<lparr>req_method = ''GET'', req_url = BASE_URL @ ''/genfuelmix/day/20231201.json'',
              req_auth = auth client, req_headers = [(''Accept'', ''application/json'')],
              req_params = None\<rparr> of
         Inl e \<Rightarrow> Inl e
       | Inr response \<Rightarrow>
           if 400 \<le> status_code response \<and> status_code response < 600
           then Inl (HTTPError (status_code response))
           else (case resp_json response of
                   None \<Rightarrow> Inl JSONDecodeError
                 | Some parsed \<Rightarrow> Inr (Parsed parsed))),
      sent @ [\<lparr>req_method = ''GET'', req_url = BASE_URL @ ''/genfuelmix/day/20231201.json'',
               req_auth = auth client, req_headers = [(''Accept'', ''application/json'')],
               req_params = None\<rparr>])"
proof -
  have "validate_date_format pads_year ''20231201'' = Inr ()"
    by (rule validate_date_format_examples(1))
  then show ?thesis
    by (simp add: retrieve_data_def get_data_def DailyFuelMixDataRetriever_def raise_for_status_def
        split: sum.splits option.splits)
qed

section \<open>Flattening: the frame library on records\<close>

lemma new_key_nested: "key_string \<noteq> [] \<Longrightarrow> new_key key_string key = dot_join key_string key"
  by (simp add: new_key_def dot_join_def)

lemma new_key_top: "new_key [] key = key"
  by (simp add: new_key_def removeprefix_def)

lemma map_of_dict_set: "map_of (dict_set d k v) = (map_of d)(k \<mapsto> v)"
  by (induction d) (auto simp add: fun_eq_iff)

lemma set_dict_set: "set (dict_set d k v) \<subseteq> insert (k, v) (set d)"
  by (induction d) auto

lemma map_of_normalise:
  "ks \<noteq> [] \<Longrightarrow> map_of (normalise_json v ks nd) = map_of nd ++ map_of (rev (leaves ks v))"
  "ks \<noteq> [] \<Longrightarrow>
     map_of (normalise_items items ks nd) = map_of nd ++ map_of (rev (leaves_items ks items))"
proof (induction v ks nd and items ks nd rule: normalise_json_normalise_items.induct)
  case (9 kv rest key_string normalized_dict)
  have "dot_join key_string (fst kv) \<noteq> []"
    by (simp add: dot_join_def)
  with 9 show ?case
    by (simp add: new_key_nested)
qed (simp_all add: map_of_dict_set fun_eq_iff map_add_def)

lemma set_normalise:
  "ks \<noteq> [] \<Longrightarrow> set (normalise_json v ks nd) \<subseteq> set nd \<union> set (leaves ks v)"
  "ks \<noteq> [] \<Longrightarrow> set (normalise_items items ks nd) \<subseteq> set nd \<union> set (leaves_items ks items)"
proof (induction v ks nd and items ks nd rule: normalise_json_normalise_items.induct)
  case (9 kv rest key_string normalized_dict)
  have "dot_join key_string (fst kv) \<noteq> []"
    by (simp add: dot_join_def)
  with 9 show ?case
    by (auto simp add: new_key_nested)
qed (use set_dict_set in auto)

lemma map_of_normalise_top:
  assumes "list_all (\<lambda>kv. fst kv \<noteq> []) items"
  shows "map_of (normalise_items items [] nd) = map_of nd ++ map_of (rev (flat_items items))"
  using assms
proof (induction items arbitrary: nd)
  case Nil
  show ?case by simp
next
  case (Cons kv rest)
  then have named: "fst kv \<noteq> []" and others: "list_all (\<lambda>kv. fst kv \<noteq> []) rest"
    by simp_all
  show ?case
    by (simp add: new_key_top Cons.IH [OF others] map_of_normalise(1) [OF named])
qed

lemma set_normalise_top:
  assumes "list_all (\<lambda>kv. fst kv \<noteq> []) items"
  shows "set (normalise_items items [] nd) \<subseteq> set nd \<union> set (flat_items items)"
  using assms
proof (induction items arbitrary: nd)
  case Nil
  show ?case by simp
next
  case (Cons kv rest)
  then have named: "fst kv \<noteq> []" and others: "list_all (\<lambda>kv. fst kv \<noteq> []) rest"
    by simp_all
  show ?case
    using Cons.IH [OF others, of "normalise_json (snd kv) (fst kv) nd"]
      set_normalise(1) [OF named, of "snd kv" nd]
    by (auto simp add: new_key_top)
qed

lemma map_of_fold_dict_set:
  "map_of (fold (\<lambda>kv acc. dict_set acc (fst kv) (snd kv)) xs acc) = map_of acc ++ map_of (rev xs)"
proof (induction xs arbitrary: acc)
  case Nil
  show ?case by simp
next
  case (Cons kv xs)
  show ?case
    by (simp add: Cons.IH map_of_dict_set fun_eq_iff map_add_def split: option.splits)
qed

lemma set_fold_dict_set:
  "set (fold (\<lambda>kv acc. dict_set acc (fst kv) (snd kv)) xs acc) \<subseteq> set acc \<union> set xs"
proof (induction xs arbitrary: acc)
  case Nil
  show ?case by simp
next
  case (Cons kv xs)
  have "set (dict_set acc (fst kv) (snd kv)) \<subseteq> insert kv (set acc)"
    using set_dict_set [of acc "fst kv" "snd kv"] by simp
  with Cons.IH [of "dict_set acc (fst kv) (snd kv)"] show ?case
    by auto
qed

lemma leaves_non_dict: "\<not> is_dict v \<Longrightarrow> leaves name v = [(name, v)]"
  by (cases v) (simp_all add: is_dict_def)

lemma flat_items_top:
  "flat_items (filter (\<lambda>kv. \<not> is_dict (snd kv)) data) = filter (\<lambda>kv. \<not> is_dict (snd kv)) data"
  by (induction data) (simp_all add: leaves_non_dict)

lemma set_flat_items:
  "set (flat_items data)
     = set (filter (\<lambda>kv. \<not> is_dict (snd kv)) data)
       \<union> set (flat_items (filter (\<lambda>kv. is_dict (snd kv)) data))"
  by (induction data) (auto simp add: leaves_non_dict)

lemma nested_keys_named_deep:
  assumes "nested_keys_named data"
  shows "list_all (\<lambda>kv. fst kv \<noteq> []) (filter (\<lambda>kv. is_dict (snd kv)) data)"
  using assms by (induction data) (auto simp add: nested_keys_named_def)

lemma keys_normalise_json_ordered:
  assumes "nested_keys_named data"
  shows "fst ` set (normalise_json_ordered data) = flat_keys data"
proof -
  let ?top = "filter (\<lambda>kv. \<not> is_dict (snd kv)) data"
  let ?deep = "filter (\<lambda>kv. is_dict (snd kv)) data"
  let ?nested = "normalise_json (JObject ?deep) [] []"
  have "map_of ?nested = map_of (rev (flat_items ?deep))"
    using map_of_normalise_top [OF nested_keys_named_deep [OF assms], of "[]"] by simp
  then have "dom (map_of ?nested) = dom (map_of (rev (flat_items ?deep)))"
    by simp
  then have nested: "fst ` set ?nested = fst ` set (flat_items ?deep)"
    by (simp add: dom_map_of_conv_image_fst)
  have "map_of (normalise_json_ordered data) = map_of ?top ++ map_of (rev ?nested)"
    by (simp add: normalise_json_ordered_def map_of_fold_dict_set)
  then have "dom (map_of (normalise_json_ordered data)) = dom (map_of ?top ++ map_of (rev ?nested))"
    by simp
  then have "fst ` set (normalise_json_ordered data) = fst ` set ?top \<union> fst ` set ?nested"
    by (simp add: dom_map_of_conv_image_fst Un_commute)
  then show ?thesis
    unfolding flat_keys_def set_flat_items [of data] nested by (simp add: image_Un)
qed

lemma values_normalise_json_ordered:
  assumes "nested_keys_named data"
    and "map_of (normalise_json_ordered data) c = Some v"
  shows "(c, v) \<in> set (flat_items data)"
proof -
  let ?top = "filter (\<lambda>kv. \<not> is_dict (snd kv)) data"
  let ?deep = "filter (\<lambda>kv. is_dict (snd kv)) data"
  let ?nested = "normalise_json (JObject ?deep) [] []"
  have "(c, v) \<in> set (normalise_json_ordered data)"
    using assms(2) by (rule map_of_SomeD)
  then have "(c, v) \<in> set ?top \<union> set ?nested"
    using set_fold_dict_set [of ?nested ?top] by (auto simp add: normalise_json_ordered_def)
  moreover have "set ?nested \<subseteq> set (flat_items ?deep)"
    using set_normalise_top [OF nested_keys_named_deep [OF assms(1)], of "[]"] by simp
  ultimately show ?thesis
    unfolding set_flat_items [of data] by blast
qed

lemma distinct_union_keys: "distinct seen \<Longrightarrow> distinct (union_keys kss seen)"
proof (induction kss arbitrary: seen)
  case Nil
  then show ?case by simp
next
  case (Cons ks kss)
  have "distinct (seen @ filter (\<lambda>k. k \<notin> set seen) (remdups ks))"
    using Cons.prems by auto
  then show ?case
    by (simp add: Cons.IH)
qed

lemma set_union_keys: "set (union_keys kss seen) = set seen \<union> \<Union> (set ` set kss)"
  by (induction kss arbitrary: seen) auto

lemma map_of_zip_LStr:
  "map_of (zip (map LStr cols) (map f cols)) (LStr c) = (if c \<in> set cols then Some (f c) else None)"
  by (induction cols) auto

lemma all_dicts_objects: "all_dicts (map JObject ds) = Inr ds"
  by (induction ds) simp_all

lemma lookup_path_truthy:
  assumes "lookup_path u ks = Some v" and "truthy v"
  shows "truthy u"
proof (cases ks)
  case Nil
  with assms show ?thesis by simp
next
  case (Cons k rest)
  with assms(1) show ?thesis
    by (cases u) (auto split: option.splits)
qed

lemma walk_lookup_path:
  assumes "lookup_path doc path = Some v" and "truthy v"
  shows "walk doc path = Inr v"
  using assms
proof (induction path arbitrary: doc)
  case Nil
  then show ?case by simp
next
  case (Cons k ks)
  from Cons.prems(1) obtain d u where doc: "doc = JObject d" and held: "map_of d k = Some u"
    and rest: "lookup_path u ks = Some v"
    by (cases doc) (auto split: option.splits)
  have "truthy u"
    using rest Cons.prems(2) by (rule lookup_path_truthy)
  moreover have "walk u ks = Inr v"
    using rest Cons.prems(2) by (rule Cons.IH)
  ultimately show ?case
    by (simp add: doc dict_get_def held)
qed

lemma pd_DataFrame_records:
  "pd_DataFrame (JArray (map JObject ds)) = Inr (frame_of_records ds)"
proof (cases ds)
  case Nil
  then show ?thesis
    by (simp add: frame_of_records_def empty_frame_def)
next
  case (Cons d rest)
  show ?thesis
    unfolding Cons using all_dicts_objects [of rest] by simp
qed

lemma simple_json_normalize_records:
  "simple_json_normalize (JArray (map JObject recs)) = JArray (map JObject (map normalise_json_ordered recs))"
  by (simp add: comp_def)

lemma json_normalize_records:
  "json_normalize (JArray (map JObject recs)) = Inr (frame_of_records (map normalise_json_ordered recs))"
proof (cases recs)
  case Nil
  then show ?thesis
    by (simp add: frame_of_records_def empty_frame_def)
next
  case (Cons r rs)
  have "json_normalize (JArray (map JObject recs))
          = pd_DataFrame (simple_json_normalize (JArray (map JObject recs)))"
    unfolding Cons by simp
  then show ?thesis
    by (simp only: simple_json_normalize_records pd_DataFrame_records)
qed

lemma columns_frame_of_records:
  "set (columns (frame_of_records ds)) = LStr ` (\<Union>d\<in>set ds. fst ` set d)"
  by (simp add: frame_of_records_def Let_def set_union_keys)

lemma length_cells_frame_of_records: "length (cells (frame_of_records ds)) = length ds"
  by (simp add: frame_of_records_def Let_def)

lemma cell_frame_of_records:
  assumes "i < length ds"
  shows "cell (frame_of_records ds) i (LStr c) = map_of (ds ! i) c"
proof -
  let ?cols = "union_keys (map (map fst) ds) []"
  have row: "cells (frame_of_records ds) ! i = map (\<lambda>c. map_of (ds ! i) c) ?cols"
    using assms by (simp add: frame_of_records_def Let_def)
  have "map_of (ds ! i) c = None" if "c \<notin> set ?cols"
  proof -
    have "ds ! i \<in> set ds"
      using assms by simp
    then have "fst ` set (ds ! i) \<subseteq> set ?cols"
      by (auto simp add: set_union_keys)
    with that have "c \<notin> fst ` set (ds ! i)" by blast
    then show ?thesis by (simp add: map_of_eq_None_iff)
  qed
  then show ?thesis
    unfolding cell_def row
    by (simp add: frame_of_records_def Let_def map_of_zip_LStr)
qed

lemma rectangular_frame_of_records: "rectangular (frame_of_records ds)"
  by (simp add: rectangular_def frame_of_records_def Let_def list_all_iff)

lemma distinct_columns_frame_of_records: "distinct (columns (frame_of_records ds))"
proof -
  have "distinct (union_keys (map (map fst) ds) [])"
    by (rule distinct_union_keys) simp
  then show ?thesis
    by (simp add: frame_of_records_def Let_def distinct_map inj_on_def)
qed

lemma scalars_give_no_index:
  assumes "list_all is_scalar (map snd d)"
  shows "indexes d = []" and "raw_lengths d = []"
  using assms
  by (induction d) (auto simp add: indexes_def raw_lengths_def is_scalar_def split: json.splits)

lemma pd_DataFrame_scalars:
  assumes "d \<noteq> []" and "list_all is_scalar (map snd d)"
  shows "pd_DataFrame (JObject d) = Inl (ValueError ''If using all scalar values, you must pass an index'')"
  using assms scalars_give_no_index [OF assms(2)]
  by (simp add: frame_of_dict_def extract_index_def)

section \<open>Claims about the table\<close>

text \<open>
  C1, as the code has it. When a non-empty record path ends, in the document, at a
  non-empty array of records whose nested mappings sit under keys that are not the empty
  string, the parser returns a rectangular frame with one row for each record of the
  array, in order. Its columns, each named once, are the union of the keys observed in the
  records, the keys of nested mappings joined to their parents with dots (\<open>flat_keys\<close>).
  In the row of a record, a column whose key the record does not have is empty, and a
  column whose key it has holds a value the record has under that key.
\<close>

theorem flatten_records:
  assumes "lookup_path doc path = Some (JArray (map JObject recs))"
    and "path \<noteq> []"
    and "recs \<noteq> []"
    and "list_all nested_keys_named recs"
  shows "\<exists>fr. parse_json_response json_normalize pd_DataFrame doc (Some path) = Inr fr
           \<and> length (cells fr) = length recs
           \<and> rectangular fr
           \<and> distinct (columns fr)
           \<and> set (columns fr) = LStr ` (\<Union>r\<in>set recs. flat_keys r)
           \<and> (\<forall>i<length recs. \<forall>c.
                 (c \<notin> flat_keys (recs ! i) \<longrightarrow> cell fr i (LStr c) = None)
               \<and> (c \<in> flat_keys (recs ! i) \<longrightarrow>
                    (\<exists>v. cell fr i (LStr c) = Some v \<and> (c, v) \<in> set (flat_items (recs ! i)))))"
proof -
  let ?ds = "map normalise_json_ordered recs"
  let ?fr = "frame_of_records ?ds"
  obtain k ks where split: "path = k # ks"
    using assms(2) by (cases path) simp_all
  have named: "nested_keys_named r" if "r \<in> set recs" for r
    using that assms(4) by (simp add: list_all_iff)
  have "walk doc path = Inr (JArray (map JObject recs))"
    using assms(1) assms(3) by (intro walk_lookup_path) simp_all
  then have "parse_json_response json_normalize pd_DataFrame doc (Some path)
          = json_normalize (JArray (map JObject recs))"
    unfolding parse_json_response_def split by simp
  then have result: "parse_json_response json_normalize pd_DataFrame doc (Some path) = Inr ?fr"
    by (simp only: json_normalize_records)
  have rows: "length (cells ?fr) = length recs"
    by (simp add: length_cells_frame_of_records)
  have rect: "rectangular ?fr"
    by (rule rectangular_frame_of_records)
  have once: "distinct (columns ?fr)"
    by (rule distinct_columns_frame_of_records)
  have "(\<Union>d\<in>set ?ds. fst ` set d) = (\<Union>r\<in>set recs. flat_keys r)"
    using named by (simp add: keys_normalise_json_ordered)
  then have cols: "set (columns ?fr) = LStr ` (\<Union>r\<in>set recs. flat_keys r)"
    by (simp only: columns_frame_of_records)
  have cells: "(c \<notin> flat_keys (recs ! i) \<longrightarrow> cell ?fr i (LStr c) = None)
               \<and> (c \<in> flat_keys (recs ! i) \<longrightarrow>
                    (\<exists>v. cell ?fr i (LStr c) = Some v \<and> (c, v) \<in> set (flat_items (recs ! i))))"
    if "i < length recs" for i c
  proof -
    have at: "cell ?fr i (LStr c) = map_of (normalise_json_ordered (recs ! i)) c"
      using that cell_frame_of_records [of i ?ds c] by simp
    have this_named: "nested_keys_named (recs ! i)"
      using that by (intro named) simp
    have keys: "fst ` set (normalise_json_ordered (recs ! i)) = flat_keys (recs ! i)"
      using this_named by (rule keys_normalise_json_ordered)
    show ?thesis
    proof (intro conjI impI)
      assume "c \<notin> flat_keys (recs ! i)"
      then show "cell ?fr i (LStr c) = None"
        unfolding at keys [symmetric] by (simp add: map_of_eq_None_iff)
    next
      assume "c \<in> flat_keys (recs ! i)"
      then obtain v where v: "map_of (normalise_json_ordered (recs ! i)) c = Some v"
        unfolding keys [symmetric] using map_of_eq_None_iff [of "normalise_json_ordered (recs ! i)" c]
        by (cases "map_of (normalise_json_ordered (recs ! i)) c") auto
      then show "\<exists>v. cell ?fr i (LStr c) = Some v \<and> (c, v) \<in> set (flat_items (recs ! i))"
        unfolding at using values_normalise_json_ordered [OF this_named] by blast
    qed
  qed
  show ?thesis
    using result rows rect once cols cells by blast
qed

theorem flatten_records_witness:
  "lookup_path (JObject [(''A'', JObject [(''B'', JArray (map JObject
       [[(''x'', JInt 1)], [(''x'', JInt 2), (''y'', JInt 3)]]))])]) [''A'', ''B'']
     = Some (JArray (map JObject [[(''x'', JInt 1)], [(''x'', JInt 2), (''y'', JInt 3)]]))
   \<and> list_all nested_keys_named [[(''x'', JInt 1)], [(''x'', JInt 2), (''y'', JInt 3)]]
   \<and> (\<exists>fr. parse_json_response json_normalize pd_DataFrame
              (JObject [(''A'', JObject [(''B'', JArray (map JObject
                 [[(''x'', JInt 1)], [(''x'', JInt 2), (''y'', JInt 3)]]))])]) (Some [''A'', ''B''])
            = Inr fr
          \<and> length (cells fr) = 2
          \<and> rectangular fr
          \<and> distinct (columns fr)
          \<and> set (columns fr) = {LStr ''x'', LStr ''y''}
          \<and> cell fr 0 (LStr ''x'') = Some (JInt 1) \<and> cell fr 0 (LStr ''y'') = None
          \<and> cell fr 1 (LStr ''x'') = Some (JInt 2) \<and> cell fr 1 (LStr ''y'') = Some (JInt 3))"
proof -
  let ?recs = "[[(''x'', JInt 1)], [(''x'', JInt 2), (''y'', JInt 3)]]"
  let ?doc = "JObject [(''A'', JObject [(''B'', JArray (map JObject ?recs))])]"
  have ends: "lookup_path ?doc [''A'', ''B''] = Some (JArray (map JObject ?recs))"
    by simp
  have path: "[''A'', ''B''] \<noteq> []" and recs: "?recs \<noteq> []"
    by simp_all
  have named: "list_all nested_keys_named ?recs"
    by (simp add: nested_keys_named_def)
  have items0: "flat_items (?recs ! 0) = [(''x'', JInt 1)]"
    and items1: "flat_items (?recs ! 1) = [(''x'', JInt 2), (''y'', JInt 3)]"
    by simp_all
  have keys0: "flat_keys (?recs ! 0) = {''x''}" and keys1: "flat_keys (?recs ! 1) = {''x'', ''y''}"
    unfolding flat_keys_def items0 items1 by simp_all
  from flatten_records [OF ends path recs named] obtain fr where
    result: "parse_json_response json_normalize pd_DataFrame ?doc (Some [''A'', ''B'']) = Inr fr"
    and rows: "length (cells fr) = length ?recs"
    and rect: "rectangular fr"
    and once: "distinct (columns fr)"
    and cols: "set (columns fr) = LStr ` (\<Union>r\<in>set ?recs. flat_keys r)"
    and cells: "\<forall>i<length ?recs. \<forall>c.
                 (c \<notin> flat_keys (?recs ! i) \<longrightarrow> cell fr i (LStr c) = None)
               \<and> (c \<in> flat_keys (?recs ! i) \<longrightarrow>
                    (\<exists>v. cell fr i (LStr c) = Some v \<and> (c, v) \<in> set (flat_items (?recs ! i))))"
    by blast
  note cells = cells [rule_format]
  have at0: "(c \<notin> flat_keys (?recs ! 0) \<longrightarrow> cell fr 0 (LStr c) = None)
               \<and> (c \<in> flat_keys (?recs ! 0) \<longrightarrow>
                    (\<exists>v. cell fr 0 (LStr c) = Some v \<and> (c, v) \<in> set (flat_items (?recs ! 0))))" for c
    using cells [of 0 c] by simp
  have at1: "(c \<notin> flat_keys (?recs ! 1) \<longrightarrow> cell fr 1 (LStr c) = None)
               \<and> (c \<in> flat_keys (?recs ! 1) \<longrightarrow>
                    (\<exists>v. cell fr 1 (LStr c) = Some v \<and> (c, v) \<in> set (flat_items (?recs ! 1))))" for c
    using cells [of 1 c] by simp
  have x0: "cell fr 0 (LStr ''x'') = Some (JInt 1)"
    using at0 [of "''x''"] unfolding keys0 items0 by auto
  have y0: "cell fr 0 (LStr ''y'') = None"
    using at0 [of "''y''"] unfolding keys0 items0 by simp
  have x1: "cell fr 1 (LStr ''x'') = Some (JInt 2)"
    using at1 [of "''x''"] unfolding keys1 items1 by auto
  have y1: "cell fr 1 (LStr ''y'') = Some (JInt 3)"
    using at1 [of "''y''"] unfolding keys1 items1 by auto
  have "set (columns fr) = {LStr ''x'', LStr ''y''}"
    using cols keys0 keys1 by auto
  with ends named result rows rect once x0 y0 x1 y1 show ?thesis
    by auto
qed

text \<open>
  C1 as the specification words it speaks of every record path that ends at an array of
  records, the empty one included, and of every record. With an empty record path the
  parser does not flatten: the document \<^verbatim>\<open>[{"a": {"b": 1}}]\<close> is an array of one record whose
  dot-joined key is \<^verbatim>\<open>a.b\<close>, and the frame has the one column \<^verbatim>\<open>a\<close>, holding the nested
  mapping. And under the empty key the library writes the nested keys without the dot:
  with the record path \<^verbatim>\<open>["R"]\<close> against \<^verbatim>\<open>{"R": [{"": {"a": 1}}]}\<close> the record has the
  dot-joined key \<^verbatim>\<open>.a\<close> and the frame has the column \<^verbatim>\<open>a\<close>.
\<close>

theorem flatten_records_counterexample:
  "lookup_path (JArray (map JObject [[(''a'', JObject [(''b'', JInt 1)])]])) []
     = Some (JArray (map JObject [[(''a'', JObject [(''b'', JInt 1)])]]))
   \<and> flat_keys [(''a'', JObject [(''b'', JInt 1)])] = {''a.b''}
   \<and> parse_json_response json_normalize pd_DataFrame
         (JArray (map JObject [[(''a'', JObject [(''b'', JInt 1)])]])) (Some [])
       = Inr \<lparr>columns = [LStr ''a''], index = [LInt 0], cells = [[Some (JObject [(''b'', JInt 1)])]]\<rparr>
   \<and> parse_json_response json_normalize pd_DataFrame
         (JArray (map JObject [[(''a'', JObject [(''b'', JInt 1)])]])) None
       = Inr \<lparr>columns = [LStr ''a''], index = [LInt 0], cells = [[Some (JObject [(''b'', JInt 1)])]]\<rparr>
   \<and> lookup_path (JObject [(''R'', JArray (map JObject [[([], JObject [(''a'', JInt 1)])]]))]) [''R'']
     = Some (JArray (map JObject [[([], JObject [(''a'', JInt 1)])]]))
   \<and> flat_keys [([], JObject [(''a'', JInt 1)])] = {''.a''}
   \<and> parse_json_response json_normalize pd_DataFrame
         (JObject [(''R'', JArray (map JObject [[([], JObject [(''a'', JInt 1)])]]))]) (Some [''R''])
       = Inr \<lparr>columns = [LStr ''a''], index = [LInt 0], cells = [[Some (JInt 1)]]\<rparr>"
  by (simp add: flat_keys_def dot_join_def parse_json_response_def dict_get_def
      normalise_json_ordered_def is_dict_def new_key_def removeprefix_def
      frame_of_records_def Let_def upt_rec)

text \<open>
  The example of the specification: \<^verbatim>\<open>{"A": {"B": [{"x": 1}, {"x": 2, "y": 3}]}}\<close> with the
  record path \<^verbatim>\<open>["A", "B"]\<close> gives two rows, \<^verbatim>\<open>x = 1\<close> with an empty \<^verbatim>\<open>y\<close>, and \<^verbatim>\<open>x = 2\<close>,
  \<^verbatim>\<open>y = 3\<close>.
\<close>

lemma flatten_example:
  "parse_json_response json_normalize pd_DataFrame
     (JObject [(''A'', JObject [(''B'', JArray [JObject [(''x'', JInt 1)],
                                                JObject [(''x'', JInt 2), (''y'', JInt 3)]])])])
     (Some [''A'', ''B''])
   = Inr \<lparr>columns = [LStr ''x'', LStr ''y''], index = [LInt 0, LInt 1],
          cells = [[Some (JInt 1), None], [Some (JInt 2), Some (JInt 3)]]\<rparr>"
  by (simp add: parse_json_response_def dict_get_def normalise_json_ordered_def is_dict_def
      frame_of_records_def Let_def upt_rec)

text \<open>
  C8, as the code has it. With an absent or an empty record path the parser hands the
  whole document to \<^verbatim>\<open>pd.DataFrame\<close> and returns what that returns. For an array of
  records this is a frame with one row for each record and one column for each key of
  the records (nested mappings are not flattened on this path). For a non-empty mapping
  whose values are all scalars it is the ValueError of the frame constructor.
\<close>

theorem whole_document_to_frame:
  "parse_json_response json_normalize pd_DataFrame doc None = pd_DataFrame doc
   \<and> parse_json_response json_normalize pd_DataFrame doc (Some []) = pd_DataFrame doc
   \<and> (\<exists>fr. pd_DataFrame (JArray (map JObject recs)) = Inr fr
          \<and> length (cells fr) = length recs
          \<and> set (columns fr) = LStr ` (\<Union>r\<in>set recs. fst ` set r))
   \<and> (d \<noteq> [] \<and> list_all is_scalar (map snd d) \<longrightarrow>
        pd_DataFrame (JObject d) = Inl (ValueError ''If using all scalar values, you must pass an index''))"
  using pd_DataFrame_scalars [of d]
  by (simp add: parse_json_response_def pd_DataFrame_records length_cells_frame_of_records
      columns_frame_of_records)

theorem whole_document_to_frame_witness:
  "[(''a'', JInt 1), (''b'', JStr ''x'')] \<noteq> []
   \<and> list_all is_scalar (map snd [(''a'', JInt 1), (''b'', JStr ''x'')])
   \<and> pd_DataFrame (JObject [(''a'', JInt 1), (''b'', JStr ''x'')])
       = Inl (ValueError ''If using all scalar values, you must pass an index'')
   \<and> parse_json_response json_normalize pd_DataFrame (JArray [JObject [(''x'', JInt 1)]]) None
       = pd_DataFrame (JArray [JObject [(''x'', JInt 1)]])
   \<and> (\<exists>fr. pd_DataFrame (JArray (map JObject [[(''x'', JInt 1)]])) = Inr fr
          \<and> length (cells fr) = 1 \<and> set (columns fr) = {LStr ''x''})"
proof -
  have scalars: "[(''a'', JInt 1), (''b'', JStr ''x'')] \<noteq> []
                 \<and> list_all is_scalar (map snd [(''a'', JInt 1), (''b'', JStr ''x'')])"
    by (simp add: is_scalar_def)
  show ?thesis
    using scalars
      whole_document_to_frame [of "JArray [JObject [(''x'', JInt 1)]]" "[[(''x'', JInt 1)]]"
        "[(''a'', JInt 1), (''b'', JStr ''x'')]"]
    by simp
qed

text \<open>
  C8 as the specification words it promises a table for a document that is a mapping of
  scalars. \<^verbatim>\<open>pd.DataFrame({"a": 1, "b": "x"})\<close> has no row index to take from its values and
  raises ValueError, with an absent and with an empty record path.
\<close>

theorem map_of_scalars_counterexample:
  "parse_json_response json_normalize pd_DataFrame (JObject [(''a'', JInt 1), (''b'', JStr ''x'')]) None
     = Inl (ValueError ''If using all scalar values, you must pass an index'')
   \<and> parse_json_response json_normalize pd_DataFrame (JObject [(''a'', JInt 1), (''b'', JStr ''x'')]) (Some [])
     = Inl (ValueError ''If using all scalar values, you must pass an index'')"
  by (simp add: parse_json_response_def frame_of_dict_def extract_index_def indexes_def raw_lengths_def)

end
